theory Spec2Isabelle
  imports Complex_Main "HOL-Library.Sublist" "HOL-Library.Word" "HOL-Library.Log_Nat"
begin

section \<open>JavaScript strings\<close>

text \<open>
  A JavaScript string is a sequence of UTF-16 code units. \<open>js\<close> turns an ASCII literal
  into one. A code point above \<open>0xFFFF\<close> takes two units, a high surrogate followed by
  a low surrogate; \<open>isWellFormed\<close> is \<^verbatim>\<open>String.prototype.isWellFormed\<close>: no surrogate
  stands alone.
\<close>

type_synonym code_unit = "16 word"
type_synonym js_string = "code_unit list"

definition cu :: "char \<Rightarrow> code_unit" where
  "cu c = of_nat (of_char c)"

definition js :: "string \<Rightarrow> js_string" where
  "js str = map cu str"

definition is_high_surrogate :: "code_unit \<Rightarrow> bool" where
  "is_high_surrogate x = (0xD800 \<le> x \<and> x \<le> 0xDBFF)"

definition is_low_surrogate :: "code_unit \<Rightarrow> bool" where
  "is_low_surrogate x = (0xDC00 \<le> x \<and> x \<le> 0xDFFF)"

fun isWellFormed :: "js_string \<Rightarrow> bool" where
  "isWellFormed [] = True"
| "isWellFormed (x # xs) =
     (if is_high_surrogate x
      then (case xs of [] \<Rightarrow> False | y # ys \<Rightarrow> is_low_surrogate y \<and> isWellFormed ys)
      else if is_low_surrogate x then False
      else isWellFormed xs)"

text \<open>JavaScript truthiness of an optional string: \<^verbatim>\<open>undefined\<close> and \<^verbatim>\<open>""\<close> are falsy.\<close>

fun truthy :: "js_string option \<Rightarrow> bool" where
  "truthy None = False"
| "truthy (Some str) = (str \<noteq> [])"

section \<open>JavaScript numbers\<close>

text \<open>
  A number is an IEEE 754 double: \<open>Finite a\<close> is the double whose value is the rational
  \<open>a\<close> (the two zeros are not told apart), beside the two infinities and \<^verbatim>\<open>NaN\<close>.
  \<open>to_double\<close> rounds a rational to the nearest double, ties to the even significand:
  the spacing of the doubles around \<open>a\<close> is \<open>2\<close> to the power \<open>e - 52\<close>, where \<open>e\<close> is the
  binary exponent of \<open>a\<close>, not below \<open>-1022\<close>; a result of magnitude \<open>2 ^ 1024\<close> is
  an infinity. The product of two doubles is their exact product, rounded.
\<close>

datatype js_number = Finite rat | PosInfinity | NegInfinity | NaN

definition floor_log2 :: "rat \<Rightarrow> int" where
  "floor_log2 a =
     (let (n, d) = quotient_of a; k = bitlen n - bitlen d
      in if 2 powi k \<le> a then k else k - 1)"

definition round_half_even :: "rat \<Rightarrow> int" where
  "round_half_even m =
     (let f = \<lfloor>m\<rfloor>; d = m - of_int f
      in if d < 1 / 2 then f else if 1 / 2 < d then f + 1 else if even f then f else f + 1)"

definition to_double :: "rat \<Rightarrow> js_number" where
  "to_double a =
     (if a = 0 then Finite 0
      else let e = max (floor_log2 \<bar>a\<bar>) (- 1022);
               ulp = 2 powi (e - 52);
               v = of_int (round_half_even (\<bar>a\<bar> / ulp)) * ulp
           in if 2 powi 1024 \<le> v then (if 0 < a then PosInfinity else NegInfinity)
              else Finite (if 0 < a then v else - v))"

fun js_times :: "js_number \<Rightarrow> js_number \<Rightarrow> js_number" where
  "js_times (Finite a) (Finite b) = to_double (a * b)"
| "js_times (Finite a) PosInfinity =
     (if a = 0 then NaN else if 0 < a then PosInfinity else NegInfinity)"
| "js_times (Finite a) NegInfinity =
     (if a = 0 then NaN else if 0 < a then NegInfinity else PosInfinity)"
| "js_times PosInfinity (Finite b) =
     (if b = 0 then NaN else if 0 < b then PosInfinity else NegInfinity)"
| "js_times NegInfinity (Finite b) =
     (if b = 0 then NaN else if 0 < b then NegInfinity else PosInfinity)"
| "js_times PosInfinity PosInfinity = PosInfinity"
| "js_times PosInfinity NegInfinity = NegInfinity"
| "js_times NegInfinity PosInfinity = NegInfinity"
| "js_times NegInfinity NegInfinity = PosInfinity"
| "js_times NaN y = NaN"
| "js_times x NaN = NaN"

section \<open>Errors\<close>

text \<open>
  A thrown value is either an \<^verbatim>\<open>Error\<close> object with its message or some other value;
  \<open>message_of\<close> is \<^verbatim>\<open>error instanceof Error ? error.message : "Error"\<close>.
  \<^verbatim>\<open>URIError\<close> is the error \<^verbatim>\<open>encodeURIComponent\<close> throws, an \<^verbatim>\<open>Error\<close> whose message
  under V8 (the engine of the Node.js runtime the plugin runs in) is \<^verbatim>\<open>URI malformed\<close>.
\<close>

datatype js_error = ErrorObject js_string | OtherThrown

fun message_of :: "js_error \<Rightarrow> js_string" where
  "message_of (ErrorObject m) = m"
| "message_of OtherThrown = js ''Error''"

definition URIError :: js_error where
  "URIError = ErrorObject (js ''URI malformed'')"

section \<open>\<^verbatim>\<open>encodeURIComponent\<close>\<close>

text \<open>
  The function \<^verbatim>\<open>Encode\<close> of ECMA-262 with the unreserved set of
  \<^verbatim>\<open>encodeURIComponent\<close>: letters, digits and \<^verbatim>\<open>- _ . ! ~ * ' ( )\<close> are copied, every
  other code point is written as the octets of its UTF-8 encoding, each as \<^verbatim>\<open>%XX\<close>
  in upper-case hexadecimal, and a surrogate that stands alone throws \<^verbatim>\<open>URIError\<close>.
  \<open>CHR 0x27\<close> is the apostrophe and \<open>CHR 0x22\<close> the double quote.
\<close>

definition uriUnreserved :: "code_unit \<Rightarrow> bool" where
  "uriUnreserved x =
     (x \<in> set (js ''ABCDEFGHIJKLMNOPQRSTUVWXYZabcdefghijklmnopqrstuvwxyz0123456789-_.!~*()'') \<or>
      x = cu (CHR 0x27))"

definition utf8 :: "nat \<Rightarrow> nat list" where
  "utf8 cp =
     (if cp < 0x80 then [cp]
      else if cp < 0x800 then [0xC0 + cp div 0x40, 0x80 + cp mod 0x40]
      else if cp < 0x10000
        then [0xE0 + cp div 0x1000, 0x80 + cp div 0x40 mod 0x40, 0x80 + cp mod 0x40]
      else [0xF0 + cp div 0x40000, 0x80 + cp div 0x1000 mod 0x40,
            0x80 + cp div 0x40 mod 0x40, 0x80 + cp mod 0x40])"

definition percent_octet :: "nat \<Rightarrow> js_string" where
  "percent_octet b =
     [cu CHR ''%'', js ''0123456789ABCDEF'' ! (b div 16), js ''0123456789ABCDEF'' ! (b mod 16)]"

definition percent_encoded :: "nat \<Rightarrow> js_string" where
  "percent_encoded cp = concat (map percent_octet (utf8 cp))"

definition code_point :: "code_unit \<Rightarrow> code_unit \<Rightarrow> nat" where
  "code_point lead trail = (unat lead - 0xD800) * 0x400 + (unat trail - 0xDC00) + 0x10000"

fun encode_from :: "js_string \<Rightarrow> js_error + js_string" where
  "encode_from [] = Inr []"
| "encode_from (x # xs) =
     (if uriUnreserved x then map_sum id ((#) x) (encode_from xs)
      else if is_high_surrogate x
        then (case xs of
                [] \<Rightarrow> Inl URIError
              | y # ys \<Rightarrow>
                  if is_low_surrogate y
                  then map_sum id ((@) (percent_encoded (code_point x y))) (encode_from ys)
                  else Inl URIError)
      else if is_low_surrogate x then Inl URIError
      else map_sum id ((@) (percent_encoded (unat x))) (encode_from xs))"

definition encodeURIComponent :: "js_string \<Rightarrow> js_error + js_string" where
  "encodeURIComponent uriComponent = encode_from uriComponent"

section \<open>The renderer: \<^verbatim>\<open>button-renderer.ts\<close>\<close>

record color_palette =
  background :: js_string
  surface :: js_string
  textPrimary :: js_string
  textMuted :: js_string
  border :: js_string
  accent :: js_string
  success :: js_string
  error :: js_string
  warning :: js_string

definition COLORS :: color_palette where
  "COLORS = \<lparr>background = js ''#0d1117'', surface = js ''#161b22'',
     textPrimary = js ''#e6edf3'', textMuted = js ''#8b949e'', border = js ''#30363d'',
     accent = js ''#58a6ff'', success = js ''#3fb950'', error = js ''#f85149'',
     warning = js ''#d29922''\<rparr>"

text \<open>\<^verbatim>\<open>KeyImageOptions\<close>; for the two optional lines \<open>None\<close> is \<^verbatim>\<open>undefined\<close>.\<close>

record key_image_options =
  line1 :: "js_string option"
  line2 :: js_string
  line3 :: "js_string option"
  accentColor :: js_string

text \<open>
  \<^verbatim>\<open>text.replace(/c/g, r)\<close> for a one-character pattern replaces every occurrence of
  that code unit, left to right.
\<close>

definition replace_all :: "code_unit \<Rightarrow> js_string \<Rightarrow> js_string \<Rightarrow> js_string" where
  "replace_all c r text = concat (map (\<lambda>x. if x = c then r else [x]) text)"

definition escapeXml :: "js_string \<Rightarrow> js_string" where
  "escapeXml text =
     replace_all (cu (CHR 0x27)) (js ''&apos;'')
       (replace_all (cu (CHR 0x22)) (js ''&quot;'')
         (replace_all (cu CHR ''>'') (js ''&gt;'')
           (replace_all (cu CHR ''<'') (js ''&lt;'')
             (replace_all (cu CHR ''&'') (js ''&amp;'') text))))"

text \<open>
  \<^verbatim>\<open>text.slice(0, end)\<close>, which counts a negative \<^verbatim>\<open>end\<close> from the end of the string,
  and \<^verbatim>\<open>truncate\<close>, which cuts after \<^verbatim>\<open>maxLen - 2\<close> code units wherever that falls,
  also between the two surrogates of a pair.
\<close>

definition slice0 :: "js_string \<Rightarrow> int \<Rightarrow> js_string" where
  "slice0 text end =
     (if end < 0 then take (nat (int (length text) + end)) text else take (nat end) text)"

definition truncate_text :: "js_string \<Rightarrow> int \<Rightarrow> js_string" where
  "truncate_text text maxLen =
     (if int (length text) > maxLen then slice0 text (maxLen - 2) @ js ''..'' else text)"

text \<open>
  The SVG templates are multi-line template literals: \<open>nl k\<close> is the line break and the
  \<open>k\<close> tabs that begin the next line. \<open>data_uri\<close> is the tail common to the four render
  functions, \<^verbatim>\<open>"data:image/svg+xml," + encodeURIComponent(svg)\<close>.
\<close>

definition nl :: "nat \<Rightarrow> js_string" where
  "nl k = 0x0A # replicate k 0x09"

definition data_uri :: "js_string \<Rightarrow> js_error + js_string" where
  "data_uri svg = map_sum id ((@) (js ''data:image/svg+xml,'')) (encodeURIComponent svg)"

definition key_svg :: "key_image_options \<Rightarrow> js_string" where
  \<open>key_svg options =
     (let line1Xml =
            (if truthy (line1 options)
             then js ''<text x="72" y="50" text-anchor="middle" fill="'' @ textMuted COLORS @
                  js ''" font-family="Arial,Helvetica,sans-serif" font-size="18">'' @
                  escapeXml (truncate_text (the (line1 options)) 14) @ js ''</text>''
             else []);
          line3Xml =
            (if truthy (line3 options)
             then js ''<text x="72" y="110" text-anchor="middle" fill="'' @ textMuted COLORS @
                  js ''" font-family="Arial,Helvetica,sans-serif" font-size="15">'' @
                  escapeXml (truncate_text (the (line3 options)) 18) @ js ''</text>''
             else [])
      in js ''<svg xmlns="http://www.w3.org/2000/svg" width="144" height="144" viewBox="0 0 144 144">'' @ nl 2 @
         js ''<rect width="144" height="144" rx="16" fill="'' @ background COLORS @ js ''"/>'' @ nl 2 @
         js ''<rect width="144" height="6" rx="3" fill="'' @ accentColor options @ js ''"/>'' @ nl 2 @
         line1Xml @ nl 2 @
         js ''<text x="72" y="80" text-anchor="middle" fill="'' @ textPrimary COLORS @
         js ''" font-family="Arial,Helvetica,sans-serif" font-size="30" font-weight="bold">'' @
         escapeXml (truncate_text (line2 options) 12) @ js ''</text>'' @ nl 2 @
         line3Xml @ nl 1 @
         js ''</svg>'')\<close>

definition renderKeyImage :: "key_image_options \<Rightarrow> js_error + js_string" where
  "renderKeyImage options = data_uri (key_svg options)"

definition loading_svg :: js_string where
  \<open>loading_svg =
     js ''<svg xmlns="http://www.w3.org/2000/svg" width="144" height="144" viewBox="0 0 144 144">'' @ nl 2 @
     js ''<rect width="144" height="144" rx="16" fill="'' @ background COLORS @ js ''"/>'' @ nl 2 @
     js ''<rect width="144" height="6" rx="3" fill="'' @ border COLORS @ js ''"/>'' @ nl 2 @
     js ''<circle cx="52" cy="72" r="6" fill="'' @ textMuted COLORS @ js ''">'' @ nl 3 @
     js ''<animate attributeName="opacity" values="0.3;1;0.3" dur="1.2s" repeatCount="indefinite" begin="0s"/>'' @ nl 2 @
     js ''</circle>'' @ nl 2 @
     js ''<circle cx="72" cy="72" r="6" fill="'' @ textMuted COLORS @ js ''">'' @ nl 3 @
     js ''<animate attributeName="opacity" values="0.3;1;0.3" dur="1.2s" repeatCount="indefinite" begin="0.2s"/>'' @ nl 2 @
     js ''</circle>'' @ nl 2 @
     js ''<circle cx="92" cy="72" r="6" fill="'' @ textMuted COLORS @ js ''">'' @ nl 3 @
     js ''<animate attributeName="opacity" values="0.3;1;0.3" dur="1.2s" repeatCount="indefinite" begin="0.4s"/>'' @ nl 2 @
     js ''</circle>'' @ nl 1 @
     js ''</svg>''\<close>

definition renderLoadingImage :: "js_error + js_string" where
  "renderLoadingImage = data_uri loading_svg"

text \<open>The code unit \<open>0x26A0\<close> is the warning sign and \<open>0x2699\<close> the gear.\<close>

definition error_svg :: "js_string \<Rightarrow> js_string" where
  \<open>error_svg message =
     js ''<svg xmlns="http://www.w3.org/2000/svg" width="144" height="144" viewBox="0 0 144 144">'' @ nl 2 @
     js ''<rect width="144" height="144" rx="16" fill="'' @ background COLORS @ js ''"/>'' @ nl 2 @
     js ''<rect width="144" height="6" rx="3" fill="'' @ error COLORS @ js ''"/>'' @ nl 2 @
     js ''<text x="72" y="70" text-anchor="middle" fill="'' @ error COLORS @
     js ''" font-family="Arial,Helvetica,sans-serif" font-size="24" font-weight="bold">'' @
     [0x26A0] @ js ''</text>'' @ nl 2 @
     js ''<text x="72" y="100" text-anchor="middle" fill="'' @ textMuted COLORS @
     js ''" font-family="Arial,Helvetica,sans-serif" font-size="14">'' @
     escapeXml (truncate_text message 16) @ js ''</text>'' @ nl 1 @
     js ''</svg>''\<close>

definition renderErrorImage :: "js_string \<Rightarrow> js_error + js_string" where
  "renderErrorImage message = data_uri (error_svg message)"

definition unconfigured_svg :: js_string where
  \<open>unconfigured_svg =
     js ''<svg xmlns="http://www.w3.org/2000/svg" width="144" height="144" viewBox="0 0 144 144">'' @ nl 2 @
     js ''<rect width="144" height="144" rx="16" fill="'' @ background COLORS @ js ''"/>'' @ nl 2 @
     js ''<rect width="144" height="6" rx="3" fill="'' @ border COLORS @ js ''"/>'' @ nl 2 @
     js ''<text x="72" y="65" text-anchor="middle" fill="'' @ textMuted COLORS @
     js ''" font-family="Arial,Helvetica,sans-serif" font-size="36">'' @
     [0x2699] @ js ''</text>'' @ nl 2 @
     js ''<text x="72" y="100" text-anchor="middle" fill="'' @ textMuted COLORS @
     js ''" font-family="Arial,Helvetica,sans-serif" font-size="14">Setup Required</text>'' @ nl 1 @
     js ''</svg>''\<close>

definition renderUnconfiguredImage :: "js_error + js_string" where
  "renderUnconfiguredImage = data_uri unconfigured_svg"

text \<open>
  Names for the strings the render functions return when they return: the images the
  host is asked to show. \<open>ErrorImage\<close> and \<open>KeyImage\<close> are meaningful for the arguments
  at which the render function does not throw.
\<close>

definition LoadingImage :: js_string where
  "LoadingImage = projr renderLoadingImage"

definition UnconfiguredImage :: js_string where
  "UnconfiguredImage = projr renderUnconfiguredImage"

definition ErrorImage :: "js_string \<Rightarrow> js_string" where
  "ErrorImage message = projr (renderErrorImage message)"

definition KeyImage :: "key_image_options \<Rightarrow> js_string" where
  "KeyImage options = projr (renderKeyImage options)"

section \<open>Data model of the scaffold action\<close>

text \<open>
  The action class of \<^verbatim>\<open>scaffold/src/actions/example-action.ts\<close> is a
  \<^verbatim>\<open>SingletonAction\<close> whose only field is \<^verbatim>\<open>timers = new Map<string, Timer>()\<close>.
  Its handlers talk to three collaborators: the host (\<^verbatim>\<open>setImage\<close>, \<^verbatim>\<open>setTitle\<close>),
  the global settings store (\<^verbatim>\<open>getGlobalSettings\<close>) and the timer table of the
  Node.js runtime (\<^verbatim>\<open>setInterval\<close>, \<^verbatim>\<open>clearInterval\<close>). The model threads one record
  through every handler: the action's own map, the timer table of the runtime, and the
  log of calls issued to the host.
\<close>

type_synonym instance_id = string
type_synonym timer_handle = nat

text \<open>
  \<^verbatim>\<open>__ACTION_CLASS__Settings\<close> and \<^verbatim>\<open>GlobalSettings\<close> of \<^verbatim>\<open>types.ts\<close>: every field is
  optional; \<open>None\<close> is \<^verbatim>\<open>undefined\<close>. The interval is a \<^verbatim>\<open>number\<close> of seconds.
\<close>

record settings =
  resource :: "js_string option"
  refreshInterval :: "js_number option"

record global_settings =
  apiToken :: "js_string option"

text \<open>The event objects the handlers receive: \<^verbatim>\<open>ev.action.id\<close> and \<^verbatim>\<open>ev.payload.settings\<close>.\<close>

record sd_event =
  action_id :: instance_id
  payload_settings :: settings

datatype display_call = SetImage js_string | SetTitle js_string

text \<open>
  An active interval of the runtime: the delay passed to \<^verbatim>\<open>setInterval\<close>, the period
  in milliseconds at which the runtime repeats the callback, and the event captured by
  the callback \<^verbatim>\<open>() => this.refresh(ev)\<close>.
\<close>

record js_interval =
  delay_ms :: js_number
  period_ms :: int
  cb_event :: sd_event

record controller =
  timers :: "instance_id \<rightharpoonup> timer_handle"
  intervals :: "timer_handle \<rightharpoonup> js_interval"
  next_handle :: timer_handle
  display :: "(instance_id \<times> display_call) list"
  global_reads :: nat

text \<open>A freshly constructed action, in a runtime with no timer and an idle host.\<close>

definition init :: controller where
  "init = \<lparr>timers = Map.empty, intervals = Map.empty, next_handle = 0,
            display = [], global_reads = 0\<rparr>"

text \<open>
  What the collaborators answer is not decided by the action. The environment fixes it:
  the \<open>n\<close>-th display call (\<open>n\<close> counts the calls issued before it) resolves
  (\<open>None\<close>) or rejects, and the \<open>n\<close>-th read of the global settings resolves with a
  value or rejects.
\<close>

record env =
  display_outcome :: "nat \<Rightarrow> js_error option"
  global_outcome :: "nat \<Rightarrow> js_error + global_settings"

datatype completion = Returned | Threw js_error

type_synonym handler = "controller \<Rightarrow> completion \<times> controller"

section \<open>Control flow of async functions\<close>

text \<open>
  \<open>seq f g\<close> is \<^verbatim>\<open>await f; g\<close>: a rejection of \<open>f\<close> leaves the function at once,
  with the state as \<open>f\<close> left it. \<open>try_catch f h\<close> is \<^verbatim>\<open>try { f } catch (error) { h }\<close>.
  \<open>eval_arg a k\<close> is a call \<^verbatim>\<open>k(a)\<close> whose argument expression may throw: the argument
  is evaluated first, and when it throws the call is not made.
\<close>

definition seq :: "handler \<Rightarrow> handler \<Rightarrow> handler" where
  "seq f g s = (case f s of (Returned, s') \<Rightarrow> g s' | (Threw err, s') \<Rightarrow> (Threw err, s'))"

definition try_catch :: "handler \<Rightarrow> (js_error \<Rightarrow> handler) \<Rightarrow> handler" where
  "try_catch f h s = (case f s of (Returned, s') \<Rightarrow> (Returned, s') | (Threw err, s') \<Rightarrow> h err s')"

definition eval_arg :: "js_error + 'a \<Rightarrow> ('a \<Rightarrow> handler) \<Rightarrow> handler" where
  "eval_arg a k = (case a of Inl err \<Rightarrow> (\<lambda>s. (Threw err, s)) | Inr v \<Rightarrow> k v)"

section \<open>The collaborators\<close>

definition display_call :: "env \<Rightarrow> instance_id \<Rightarrow> display_call \<Rightarrow> handler" where
  "display_call e i c s =
     ((case display_outcome e (length (display s)) of
         None \<Rightarrow> Returned
       | Some err \<Rightarrow> Threw err),
      s\<lparr>display := display s @ [(i, c)]\<rparr>)"

definition setImage :: "env \<Rightarrow> instance_id \<Rightarrow> js_string \<Rightarrow> handler" where
  "setImage e i img = display_call e i (SetImage img)"

definition setTitle :: "env \<Rightarrow> instance_id \<Rightarrow> js_string \<Rightarrow> handler" where
  "setTitle e i title = display_call e i (SetTitle title)"

definition getGlobalSettings ::
    "env \<Rightarrow> controller \<Rightarrow> (js_error + global_settings) \<times> controller" where
  "getGlobalSettings e s =
     (global_outcome e (global_reads s), s\<lparr>global_reads := Suc (global_reads s)\<rparr>)"

text \<open>
  The timers of Node.js. A delay that is larger than \<^verbatim>\<open>TIMEOUT_MAX\<close> (\<open>2 ^ 31 - 1\<close>),
  less than 1 or \<^verbatim>\<open>NaN\<close> is set to 1 millisecond, and a delay that is not an integer
  is truncated to one. \<^verbatim>\<open>setInterval\<close> returns a new \<^verbatim>\<open>Timeout\<close> object (always truthy,
  so the test \<^verbatim>\<open>if (timer)\<close> succeeds on every stored handle); \<^verbatim>\<open>clearInterval\<close>
  removes the interval from the runtime's table and does nothing for a handle already
  cleared.
\<close>

definition TIMEOUT_MAX :: rat where
  "TIMEOUT_MAX = 2147483647"

fun timer_period :: "js_number \<Rightarrow> int" where
  "timer_period (Finite d) = (if 1 \<le> d \<and> d \<le> TIMEOUT_MAX then \<lfloor>d\<rfloor> else 1)"
| "timer_period PosInfinity = 1"
| "timer_period NegInfinity = 1"
| "timer_period NaN = 1"

definition setInterval ::
    "sd_event \<Rightarrow> js_number \<Rightarrow> controller \<Rightarrow> timer_handle \<times> controller" where
  "setInterval ev delay s =
     (next_handle s,
      s\<lparr>intervals := (intervals s)(next_handle s \<mapsto>
           \<lparr>delay_ms = delay, period_ms = timer_period delay, cb_event = ev\<rparr>),
        next_handle := Suc (next_handle s)\<rparr>)"

definition clearInterval :: "timer_handle \<Rightarrow> controller \<Rightarrow> controller" where
  "clearInterval h s = s\<lparr>intervals := (intervals s)(h := None)\<rparr>"

section \<open>The action: \<^verbatim>\<open>example-action.ts\<close>\<close>

definition DEFAULT_REFRESH_INTERVAL :: js_number where
  "DEFAULT_REFRESH_INTERVAL = Finite 300"

text \<open>
  \<^verbatim>\<open>refresh\<close> suspends at \<^verbatim>\<open>await streamDeck.settings.getGlobalSettings()\<close>.
  \<open>refresh_begin\<close> is the part before the read (the loading state, outside the
  \<^verbatim>\<open>try\<close>). Once the read has settled with \<open>r\<close>, \<open>refresh_try\<close> is the rest of the
  \<^verbatim>\<open>try\<close> block and \<open>refresh_catch\<close> the \<^verbatim>\<open>catch\<close> block; \<open>refresh_settle\<close> puts
  the two together. \<open>refresh\<close> runs the two halves back to back, which is what happens
  when no other event is handled in between.
\<close>

definition refresh_begin :: "env \<Rightarrow> sd_event \<Rightarrow> handler" where
  "refresh_begin e ev =
     seq (eval_arg renderLoadingImage (setImage e (action_id ev)))
         (setTitle e (action_id ev) '''')"

definition refresh_try :: "env \<Rightarrow> sd_event \<Rightarrow> js_error + global_settings \<Rightarrow> handler" where
  "refresh_try e ev r =
     (case r of
        Inl err \<Rightarrow> (\<lambda>s. (Threw err, s))
      | Inr globalSettings \<Rightarrow>
          if \<not> truthy (apiToken globalSettings)
          then seq (eval_arg (renderErrorImage (js ''No Token'')) (setImage e (action_id ev)))
                   (setTitle e (action_id ev) '''')
          else seq (eval_arg
                      (renderKeyImage
                         \<lparr>line1 = Some (js ''Label''), line2 = js ''Value'',
                          line3 = resource (payload_settings ev),
                          accentColor = js ''#58a6ff''\<rparr>)
                      (setImage e (action_id ev)))
                   (setTitle e (action_id ev) ''''))"

definition refresh_catch :: "env \<Rightarrow> sd_event \<Rightarrow> js_error \<Rightarrow> handler" where
  "refresh_catch e ev err =
     seq (eval_arg (renderErrorImage (message_of err)) (setImage e (action_id ev)))
         (setTitle e (action_id ev) '''')"

definition refresh_settle ::
    "env \<Rightarrow> sd_event \<Rightarrow> js_error + global_settings \<Rightarrow> handler" where
  "refresh_settle e ev r = try_catch (refresh_try e ev r) (refresh_catch e ev)"

definition refresh :: "env \<Rightarrow> sd_event \<Rightarrow> handler" where
  "refresh e ev =
     seq (refresh_begin e ev)
         (\<lambda>s. case getGlobalSettings e s of (r, s') \<Rightarrow> refresh_settle e ev r s')"

text \<open>
  The tail shared by \<^verbatim>\<open>onWillAppear\<close> and \<^verbatim>\<open>onDidReceiveSettings\<close>:
  \<^verbatim>\<open>this.timers.set(ev.action.id, setInterval(() => this.refresh(ev), interval * 1000))\<close>
  with \<^verbatim>\<open>interval = settings.refreshInterval ?? DEFAULT_REFRESH_INTERVAL\<close>.
\<close>

definition install_timer :: "sd_event \<Rightarrow> handler" where
  "install_timer ev s =
     (let interval = (case refreshInterval (payload_settings ev) of
                        None \<Rightarrow> DEFAULT_REFRESH_INTERVAL
                      | Some n \<Rightarrow> n);
          (h, s') = setInterval ev (js_times interval (Finite 1000)) s
      in (Returned, s'\<lparr>timers := (timers s')(action_id ev \<mapsto> h)\<rparr>))"

definition onWillAppear :: "env \<Rightarrow> sd_event \<Rightarrow> handler" where
  "onWillAppear e ev =
     (if \<not> truthy (resource (payload_settings ev))
      then seq (eval_arg renderUnconfiguredImage (setImage e (action_id ev)))
               (setTitle e (action_id ev) '''')
      else seq (refresh e ev) (install_timer ev))"

definition onWillDisappear :: "sd_event \<Rightarrow> handler" where
  "onWillDisappear ev s =
     (let s1 = (case timers s (action_id ev) of
                  None \<Rightarrow> s
                | Some timer \<Rightarrow> clearInterval timer s)
      in (Returned, s1\<lparr>timers := (timers s1)(action_id ev := None)\<rparr>))"

definition onKeyDown :: "env \<Rightarrow> sd_event \<Rightarrow> handler" where
  "onKeyDown e ev =
     (if \<not> truthy (resource (payload_settings ev))
      then (\<lambda>s. (Returned, s))
      else refresh e ev)"

definition onDidReceiveSettings :: "env \<Rightarrow> sd_event \<Rightarrow> handler" where
  "onDidReceiveSettings e ev s =
     (let s0 = (case timers s (action_id ev) of
                  None \<Rightarrow> s
                | Some existingTimer \<Rightarrow> clearInterval existingTimer s)
      in if \<not> truthy (resource (payload_settings ev))
         then seq (eval_arg renderUnconfiguredImage (setImage e (action_id ev)))
                (seq (setTitle e (action_id ev) '''')
                   (\<lambda>s'. (Returned, s'\<lparr>timers := (timers s')(action_id ev := None)\<rparr>))) s0
         else seq (refresh e ev) (install_timer ev) s0)"

text \<open>
  \<open>run\<close> delivers lifecycle events one after the other, each handler running to its
  end before the next begins; a handler that rejects leaves the state as it was at the
  rejection. Handlers that overlap at an \<^verbatim>\<open>await\<close> are outside \<open>run\<close>.
\<close>

datatype lifecycle_call =
    WillAppear sd_event
  | WillDisappear sd_event
  | KeyDown sd_event
  | DidReceiveSettings sd_event

fun dispatch :: "env \<Rightarrow> lifecycle_call \<Rightarrow> handler" where
  "dispatch e (WillAppear ev) = onWillAppear e ev"
| "dispatch e (WillDisappear ev) = onWillDisappear ev"
| "dispatch e (KeyDown ev) = onKeyDown e ev"
| "dispatch e (DidReceiveSettings ev) = onDidReceiveSettings e ev"

fun run :: "env \<Rightarrow> lifecycle_call list \<Rightarrow> controller \<Rightarrow> controller" where
  "run e [] s = s"
| "run e (c # cs) s = run e cs (snd (dispatch e c s))"

section \<open>Observations on the controller state\<close>

text \<open>The intervals of the runtime that are still active and whose callback refreshes \<open>i\<close>.\<close>

definition active_timers :: "controller \<Rightarrow> instance_id \<Rightarrow> timer_handle set" where
  "active_timers s i = {h. \<exists>iv. intervals s h = Some iv \<and> action_id (cb_event iv) = i}"

text \<open>
  The action keeps no settings of its own. The only settings it retains for an instance
  are the ones captured by the callback of the timer registered for it.
\<close>

definition retained_settings :: "controller \<Rightarrow> instance_id \<Rightarrow> settings option" where
  "retained_settings s i =
     (case timers s i of
        None \<Rightarrow> None
      | Some h \<Rightarrow> map_option (\<lambda>iv. payload_settings (cb_event iv)) (intervals s h))"

text \<open>
  The action keeps no generation counter either. Every refresh cycle starts by asking
  for the loading image and nothing else asks for it, so the number of cycles begun for
  an instance is read off the log.
\<close>

definition cycles_begun :: "controller \<Rightarrow> instance_id \<Rightarrow> nat" where
  "cycles_begun s i = length (filter (\<lambda>c. c = (i, SetImage LoadingImage)) (display s))"


text \<open>The key-wise merge \<^verbatim>\<open>{...previous, ...payload}\<close> as the specification words it.\<close>

definition spec_merge :: "settings \<Rightarrow> settings \<Rightarrow> settings" where
  "spec_merge previous payload =
     \<lparr>resource = (case resource payload of None \<Rightarrow> resource previous | Some r \<Rightarrow> Some r),
      refreshInterval = (case refreshInterval payload of
                           None \<Rightarrow> refreshInterval previous
                         | Some n \<Rightarrow> Some n)\<rparr>"

text \<open>
  The state property that every active interval is the one the action has registered
  for the instance its callback refreshes. In such a state an instance has at most one
  active timer.
\<close>

definition timers_owned :: "controller \<Rightarrow> bool" where
  "timers_owned s =
     (\<forall>h iv. intervals s h = Some iv \<longrightarrow> timers s (action_id (cb_event iv)) = Some h)"

text \<open>
  The first two lines of \<^verbatim>\<open>onWillDisappear\<close> and of \<^verbatim>\<open>onDidReceiveSettings\<close>:
  \<^verbatim>\<open>const timer = this.timers.get(ev.action.id); if (timer) clearInterval(timer);\<close>
\<close>

definition cancel_registered :: "instance_id \<Rightarrow> controller \<Rightarrow> controller" where
  "cancel_registered i s = (case timers s i of None \<Rightarrow> s | Some h \<Rightarrow> clearInterval h s)"

text \<open>
  The handle that \<^verbatim>\<open>setInterval\<close> will return next, and every later one, is not in
  the timer table: each call of \<^verbatim>\<open>setInterval\<close> adds an interval and replaces none.
\<close>

definition handles_fresh :: "controller \<Rightarrow> bool" where
  "handles_fresh s = (\<forall>h. next_handle s \<le> h \<longrightarrow> intervals s h = None)"

section \<open>Auxiliary notions and sample inputs\<close>

text \<open>A string with no surrogate at all, such as every ASCII literal.\<close>

definition surrogate_free :: "js_string \<Rightarrow> bool" where
  "surrogate_free s = (\<forall>x \<in> set s. \<not> is_high_surrogate x \<and> \<not> is_low_surrogate x)"

definition xml_entities :: "js_string list" where
  "xml_entities = [js ''&amp;'', js ''&lt;'', js ''&gt;'', js ''&quot;'', js ''&apos;'']"

text \<open>What the five replacements of \<^verbatim>\<open>escapeXml\<close> make of a single code unit.\<close>

definition escape_unit :: "code_unit \<Rightarrow> js_string" where
  "escape_unit x =
     (if x = cu CHR ''&'' then js ''&amp;''
      else if x = cu CHR ''<'' then js ''&lt;''
      else if x = cu CHR ''>'' then js ''&gt;''
      else if x = cu (CHR 0x22) then js ''&quot;''
      else if x = cu (CHR 0x27) then js ''&apos;''
      else [x])"

text \<open>
  The delay \<^verbatim>\<open>interval * 1000\<close> that \<open>install_timer\<close> passes to \<^verbatim>\<open>setInterval\<close>, and the
  data image \<^verbatim>\<open>refresh\<close> asks for: the key image with the lines \<^verbatim>\<open>Label\<close>,
  \<^verbatim>\<open>Value\<close> and the resource. Rendering it calls \<^verbatim>\<open>truncate(line3, 18)\<close> on the
  resource, and throws when the cut leaves a surrogate alone.
\<close>

definition delay_of :: "settings \<Rightarrow> js_number" where
  "delay_of st =
     js_times (case refreshInterval st of None \<Rightarrow> DEFAULT_REFRESH_INTERVAL | Some n \<Rightarrow> n)
       (Finite 1000)"

definition data_image :: "settings \<Rightarrow> js_string" where
  "data_image st =
     KeyImage \<lparr>line1 = Some (js ''Label''), line2 = js ''Value'', line3 = resource st,
               accentColor = js ''#58a6ff''\<rparr>"

definition data_renders :: "settings \<Rightarrow> bool" where
  "data_renders st =
     (case resource st of None \<Rightarrow> True | Some str \<Rightarrow> isWellFormed (truncate_text str 18))"

text \<open>
  The image a refresh cycle asks for once the read of the global settings has settled
  with \<open>r\<close>: the error image with the message of a failed read, the \<^verbatim>\<open>No Token\<close> error
  image, the data image, or, when rendering the data image throws, the error image with
  the message of that \<^verbatim>\<open>URIError\<close>. There is none when the message of a failed read
  cannot be rendered: the error image is built with \<^verbatim>\<open>truncate(message, 16)\<close>.
\<close>

definition settled_image :: "sd_event \<Rightarrow> js_error + global_settings \<Rightarrow> js_string option" where
  "settled_image ev r =
     (case r of
        Inl err \<Rightarrow>
          if isWellFormed (truncate_text (message_of err) 16)
          then Some (ErrorImage (message_of err)) else None
      | Inr g \<Rightarrow>
          if \<not> truthy (apiToken g) then Some (ErrorImage (js ''No Token''))
          else if data_renders (payload_settings ev) then Some (data_image (payload_settings ev))
          else Some (ErrorImage (js ''URI malformed'')))"

text \<open>
  How the \<^verbatim>\<open>try\<close> block of a refresh cycle fails, if it does, read off the
  environment. The cycle begins when \<open>n\<close> display calls and \<open>k\<close> reads have been
  issued, so the loading image is call \<open>n\<close>, its title call \<open>n + 1\<close> and the calls of
  the \<^verbatim>\<open>try\<close> block are \<open>n + 2\<close> and \<open>n + 3\<close>. \<open>try_failure\<close> gives the error caught
  and the number of display calls issued by then. \<open>refresh_returns\<close> says that the two
  calls outside the \<^verbatim>\<open>try\<close> block are accepted and that, when the \<^verbatim>\<open>try\<close> block
  fails, the \<^verbatim>\<open>catch\<close> block does not fail in turn: the message of the error caught
  can be rendered and the two calls of the \<^verbatim>\<open>catch\<close> block are accepted.
\<close>

definition accepted :: "env \<Rightarrow> nat \<Rightarrow> bool" where
  "accepted e n = (display_outcome e n = None)"

definition try_failure :: "env \<Rightarrow> sd_event \<Rightarrow> nat \<Rightarrow> nat \<Rightarrow> (js_error \<times> nat) option" where
  "try_failure e ev n k =
     (case global_outcome e k of
        Inl err \<Rightarrow> Some (err, n + 2)
      | Inr g \<Rightarrow>
          if truthy (apiToken g) \<and> \<not> data_renders (payload_settings ev)
          then Some (URIError, n + 2)
          else (case display_outcome e (n + 2) of
                  Some err \<Rightarrow> Some (err, n + 3)
                | None \<Rightarrow>
                    (case display_outcome e (n + 3) of
                       Some err \<Rightarrow> Some (err, n + 4)
                     | None \<Rightarrow> None)))"

definition refresh_returns :: "env \<Rightarrow> sd_event \<Rightarrow> nat \<Rightarrow> nat \<Rightarrow> bool" where
  "refresh_returns e ev n k =
     (accepted e n \<and> accepted e (n + 1) \<and>
      (case try_failure e ev n k of
         None \<Rightarrow> True
       | Some (err, m) \<Rightarrow>
           isWellFormed (truncate_text (message_of err) 16) \<and>
           accepted e m \<and> accepted e (m + 1)))"

text \<open>
  A host that accepts every display call and a store that holds a token, as the mocks of
  \<^verbatim>\<open>example-action.test.ts\<close> do.
\<close>

definition accepts_all :: "nat \<Rightarrow> js_error option" where
  "accepts_all n = None"

definition has_token :: "nat \<Rightarrow> js_error + global_settings" where
  "has_token n = Inr \<lparr>apiToken = Some (js ''test-token'')\<rparr>"

definition ok_env :: env where
  "ok_env = \<lparr>display_outcome = accepts_all, global_outcome = has_token\<rparr>"

text \<open>
  A host that rejects the first display call it gets, and a host that rejects the third,
  which in a refresh cycle begun at an empty log is the first call inside the \<^verbatim>\<open>try\<close>
  block.
\<close>

definition first_rejected :: "nat \<Rightarrow> js_error option" where
  "first_rejected n = (if n = 0 then Some (ErrorObject (js ''disconnected'')) else None)"

definition reject_env :: env where
  "reject_env = \<lparr>display_outcome = first_rejected, global_outcome = has_token\<rparr>"

definition third_rejected :: "nat \<Rightarrow> js_error option" where
  "third_rejected n = (if n = 2 then Some (ErrorObject (js ''disconnected'')) else None)"

definition caught_env :: env where
  "caught_env = \<lparr>display_outcome = third_rejected, global_outcome = has_token\<rparr>"



text \<open>
  A store whose reads fail with an error whose message is thirteen letters \<^verbatim>\<open>a\<close>, the
  emoji U+1F600 (the surrogate pair \<open>0xD83D\<close>, \<open>0xDE00\<close>) and \<^verbatim>\<open>bbb\<close>: eighteen code
  units, of which \<^verbatim>\<open>truncate(message, 16)\<close> keeps the first fourteen.
\<close>

definition emoji_message :: js_string where
  "emoji_message = replicate 13 (cu CHR ''a'') @ [0xD83D, 0xDE00] @ js ''bbb''"

definition emoji_read_fails :: "nat \<Rightarrow> js_error + global_settings" where
  "emoji_read_fails n = Inl (ErrorObject emoji_message)"

definition emoji_env :: env where
  "emoji_env = \<lparr>display_outcome = accepts_all, global_outcome = emoji_read_fails\<rparr>"



text \<open>
  Events for the instance \<^verbatim>\<open>"btn1"\<close>: with \<^verbatim>\<open>{resource: "x", refreshInterval: 60}\<close>,
  with \<^verbatim>\<open>{}\<close>, with the partial payload \<^verbatim>\<open>{resource: "y"}\<close>, with
  \<^verbatim>\<open>{resource: "", refreshInterval: 60}\<close>, with \<^verbatim>\<open>{resource: "x", refreshInterval: 0}\<close>,
  with \<^verbatim>\<open>{resource: "x", refreshInterval: 3000000}\<close> and with
  \<^verbatim>\<open>{resource: "x", refreshInterval: 0.001953125}\<close>, which is 1 / 512 of a second:
  a double, as is its product with 1000.
\<close>

definition btn1 :: sd_event where
  "btn1 = \<lparr>action_id = ''btn1'',
            payload_settings = \<lparr>resource = Some (js ''x''), refreshInterval = Some (Finite 60)\<rparr>\<rparr>"

definition btn1_unconfigured :: sd_event where
  "btn1_unconfigured = \<lparr>action_id = ''btn1'',
            payload_settings = \<lparr>resource = None, refreshInterval = None\<rparr>\<rparr>"

definition btn1_partial :: sd_event where
  "btn1_partial = \<lparr>action_id = ''btn1'',
            payload_settings = \<lparr>resource = Some (js ''y''), refreshInterval = None\<rparr>\<rparr>"








section \<open>\<^verbatim>\<open>escapeXml\<close>\<close>

lemma replace_all_append:
  "replace_all c r (xs @ ys) = replace_all c r xs @ replace_all c r ys"
  by (simp add: replace_all_def)

lemma escapeXml_append: "escapeXml (xs @ ys) = escapeXml xs @ escapeXml ys"
  by (simp add: escapeXml_def replace_all_append)

lemma escapeXml_Nil: "escapeXml [] = []"
  by (simp add: escapeXml_def replace_all_def)

text \<open>
  The order of the five passes matters only for the ampersand, which goes first: the
  later passes do not touch what the earlier ones inserted.
\<close>

lemma escapeXml_single: "escapeXml [x] = escape_unit x"
  by (simp add: escapeXml_def replace_all_def escape_unit_def js_def cu_def)

lemma escapeXml_Cons: "escapeXml (x # xs) = escape_unit x @ escapeXml xs"
  using escapeXml_append [of "[x]" xs] by (simp add: escapeXml_single)

lemma escapeXml_set: "set (escapeXml t) = (\<Union>x \<in> set t. set (escape_unit x))"
  by (induction t) (simp_all add: escapeXml_Nil escapeXml_Cons)

lemma escape_unit_no_markup:
  "y \<in> set (escape_unit x) \<Longrightarrow>
     y \<noteq> cu CHR ''<'' \<and> y \<noteq> cu CHR ''>'' \<and> y \<noteq> cu (CHR 0x22) \<and> y \<noteq> cu (CHR 0x27)"
  by (auto simp add: escape_unit_def js_def cu_def split: if_splits)

lemma head_only:
  "c \<notin> set rest \<Longrightarrow> i < length (c # rest) \<Longrightarrow> (c # rest) ! i = c \<Longrightarrow> i = 0"
  by (cases i) auto

lemma escape_unit_amp:
  assumes "i < length (escape_unit x)" and "escape_unit x ! i = cu CHR ''&''"
  shows "i = 0 \<and> escape_unit x \<in> set xml_entities"
proof -
  consider (amp) "x = cu CHR ''&''" | (lt) "x = cu CHR ''<''" | (gt) "x = cu CHR ''>''"
    | (quot) "x = cu (CHR 0x22)" | (apos) "x = cu (CHR 0x27)"
    | (other) "x \<noteq> cu CHR ''&''" "x \<noteq> cu CHR ''<''" "x \<noteq> cu CHR ''>''"
        "x \<noteq> cu (CHR 0x22)" "x \<noteq> cu (CHR 0x27)"
    by blast
  then show ?thesis
  proof cases
    case amp
    then have e: "escape_unit x = js ''&amp;''"
      by (simp add: escape_unit_def)
    from assms have "i = 0"
      unfolding e
      by (intro head_only [of "cu CHR ''&''" "js ''amp;''" i]) (simp_all add: js_def cu_def)
    then show ?thesis by (simp add: e xml_entities_def)
  next
    case lt
    then have e: "escape_unit x = js ''&lt;''"
      by (simp add: escape_unit_def cu_def)
    from assms have "i = 0"
      unfolding e
      by (intro head_only [of "cu CHR ''&''" "js ''lt;''" i]) (simp_all add: js_def cu_def)
    then show ?thesis by (simp add: e xml_entities_def)
  next
    case gt
    then have e: "escape_unit x = js ''&gt;''"
      by (simp add: escape_unit_def cu_def)
    from assms have "i = 0"
      unfolding e
      by (intro head_only [of "cu CHR ''&''" "js ''gt;''" i]) (simp_all add: js_def cu_def)
    then show ?thesis by (simp add: e xml_entities_def)
  next
    case quot
    then have e: "escape_unit x = js ''&quot;''"
      by (simp add: escape_unit_def cu_def)
    from assms have "i = 0"
      unfolding e
      by (intro head_only [of "cu CHR ''&''" "js ''quot;''" i]) (simp_all add: js_def cu_def)
    then show ?thesis by (simp add: e xml_entities_def)
  next
    case apos
    then have e: "escape_unit x = js ''&apos;''"
      by (simp add: escape_unit_def cu_def)
    from assms have "i = 0"
      unfolding e
      by (intro head_only [of "cu CHR ''&''" "js ''apos;''" i]) (simp_all add: js_def cu_def)
    then show ?thesis by (simp add: e xml_entities_def)
  next
    case other
    then have e: "escape_unit x = [x]"
      by (simp add: escape_unit_def)
    with assms other show ?thesis by simp
  qed
qed

text \<open>Every ampersand of the output starts an entity.\<close>

lemma escapeXml_amp:
  "i < length (escapeXml t) \<Longrightarrow> escapeXml t ! i = cu CHR ''&'' \<Longrightarrow>
     \<exists>ent \<in> set xml_entities. prefix ent (drop i (escapeXml t))"
proof (induction t arbitrary: i)
  case Nil
  then show ?case by (simp add: escapeXml_Nil)
next
  case (Cons x xs)
  show ?case
  proof (cases "i < length (escape_unit x)")
    case True
    with Cons.prems have "escape_unit x ! i = cu CHR ''&''"
      by (simp add: escapeXml_Cons nth_append)
    with True have "i = 0" and "escape_unit x \<in> set xml_entities"
      using escape_unit_amp by blast+
    then show ?thesis
      by (auto simp add: escapeXml_Cons intro!: bexI [of _ "escape_unit x"])
  next
    case False
    define j where "j = i - length (escape_unit x)"
    from False Cons.prems
    have j: "j < length (escapeXml xs)" "escapeXml xs ! j = cu CHR ''&''"
      by (simp_all add: j_def escapeXml_Cons nth_append)
    from Cons.IH [OF j] obtain ent
      where "ent \<in> set xml_entities" "prefix ent (drop j (escapeXml xs))"
      by blast
    moreover from False have "drop i (escapeXml (x # xs)) = drop j (escapeXml xs)"
      by (simp add: escapeXml_Cons j_def)
    ultimately show ?thesis by auto
  qed
qed

text \<open>
  Claim C10. For every input string, the output of \<^verbatim>\<open>escapeXml\<close> contains none of
  the raw characters \<open><\<close>, \<open>>\<close>, double quote and apostrophe, and at every position
  of the output that holds an ampersand one of the five entities \<open>&amp;\<close>,
  \<open>&lt;\<close>, \<open>&gt;\<close>, \<open>&quot;\<close>, \<open>&apos;\<close> begins.
\<close>

theorem escapeXml_safe:
  "set (escapeXml t) \<inter> {cu CHR ''<'', cu CHR ''>'', cu (CHR 0x22), cu (CHR 0x27)} = {} \<and>
   (\<forall>i < length (escapeXml t). escapeXml t ! i = cu CHR ''&'' \<longrightarrow>
      (\<exists>ent \<in> set xml_entities. prefix ent (drop i (escapeXml t))))"
proof
  show "set (escapeXml t) \<inter> {cu CHR ''<'', cu CHR ''>'', cu (CHR 0x22), cu (CHR 0x27)} = {}"
    using escape_unit_no_markup by (fastforce simp add: escapeXml_set)
  show "\<forall>i < length (escapeXml t). escapeXml t ! i = cu CHR ''&'' \<longrightarrow>
      (\<exists>ent \<in> set xml_entities. prefix ent (drop i (escapeXml t)))"
    using escapeXml_amp by blast
qed

theorem escapeXml_safe_witness:
  "6 < length (escapeXml (js ''a<b&c'')) \<and>
   escapeXml (js ''a<b&c'') ! 6 = cu CHR ''&'' \<and>
   prefix (js ''&amp;'') (drop 6 (escapeXml (js ''a<b&c''))) \<and>
   cu CHR ''<'' \<notin> set (escapeXml (js ''a<b&c''))"
proof -
  have out: "escapeXml (js ''a<b&c'') = js ''a&lt;b&amp;c''"
    by (simp add: escapeXml_def replace_all_def js_def cu_def)
  have "cu CHR ''<'' \<notin> set (escapeXml (js ''a<b&c''))"
    using escapeXml_safe [of "js ''a<b&c''"] by blast
  then show ?thesis
    unfolding out by (simp add: js_def cu_def)
qed

section \<open>Surrogates\<close>

text \<open>An ASCII literal holds no surrogate.\<close>

lemma cu_small: "unat (cu c) < 256"
proof -
  have "of_char c < (256::nat)"
    by (metis of_char_mod_256 mod_less_divisor zero_less_numeral)
  then have "of_char c < (65536::nat)"
    by (rule less_trans) simp
  then have "of_char c mod 65536 = (of_char c :: nat)"
    by (rule mod_less)
  with \<open>of_char c < (256::nat)\<close> show ?thesis
    by (simp add: cu_def unat_of_nat)
qed

lemma cu_not_surrogate: "\<not> is_high_surrogate (cu c) \<and> \<not> is_low_surrogate (cu c)"
  using cu_small [of c]
  by (simp add: is_high_surrogate_def is_low_surrogate_def word_le_nat_alt)

lemma surrogate_free_js: "surrogate_free (js str)"
  by (simp add: surrogate_free_def js_def cu_not_surrogate)

lemma surrogate_free_append:
  "surrogate_free (xs @ ys) = (surrogate_free xs \<and> surrogate_free ys)"
  by (auto simp add: surrogate_free_def)

lemma surrogate_free_Nil: "surrogate_free []"
  by (simp add: surrogate_free_def)

lemma surrogate_free_Cons:
  "surrogate_free (x # xs) =
     (\<not> is_high_surrogate x \<and> \<not> is_low_surrogate x \<and> surrogate_free xs)"
  by (simp add: surrogate_free_def)

lemma wf_skip_prefix: "surrogate_free p \<Longrightarrow> isWellFormed (p @ s) = isWellFormed s"
  by (induction p) (simp_all add: surrogate_free_Cons)

lemma surrogate_free_wf: "surrogate_free p \<Longrightarrow> isWellFormed p"
  using wf_skip_prefix [of p "[]"] by simp

lemma wf_middle:
  "surrogate_free p \<Longrightarrow> p \<noteq> [] \<Longrightarrow>
     isWellFormed (a @ p @ b) = (isWellFormed a \<and> isWellFormed b)"
proof (induction a rule: isWellFormed.induct)
  case 1
  then show ?case by (simp add: wf_skip_prefix)
next
  case (2 x xs)
  show ?case
  proof (cases xs)
    case Nil
    with "2.prems" show ?thesis
      by (cases p) (simp_all add: surrogate_free_Cons wf_skip_prefix)
  next
    case (Cons y ys)
    with 2 show ?thesis by simp
  qed
qed

lemma wf_wrap:
  "surrogate_free p \<Longrightarrow> surrogate_free q \<Longrightarrow> q \<noteq> [] \<Longrightarrow>
     isWellFormed (p @ s @ q) = isWellFormed s"
  using wf_middle [of q s "[]"] by (simp add: wf_skip_prefix)

lemma escape_unit_surrogate:
  "is_high_surrogate x \<or> is_low_surrogate x \<Longrightarrow> escape_unit x = [x]"
  using cu_not_surrogate by (auto simp add: escape_unit_def)

lemma escape_unit_free:
  "\<not> is_high_surrogate x \<Longrightarrow> \<not> is_low_surrogate x \<Longrightarrow> surrogate_free (escape_unit x)"
  by (simp add: escape_unit_def surrogate_free_js surrogate_free_Cons surrogate_free_Nil)

lemma wf_escapeXml: "isWellFormed (escapeXml t) = isWellFormed t"
proof (induction t rule: isWellFormed.induct)
  case 1
  then show ?case by (simp add: escapeXml_Nil)
next
  case (2 x xs)
  show ?case
  proof (cases "is_high_surrogate x")
    case True
    show ?thesis
    proof (cases xs)
      case Nil
      with True show ?thesis
        by (simp add: escapeXml_Cons escapeXml_Nil escape_unit_surrogate)
    next
      case (Cons y ys)
      show ?thesis
      proof (cases "is_low_surrogate y")
        case low: True
        with True Cons 2 show ?thesis
          by (simp add: escapeXml_Cons escape_unit_surrogate)
      next
        case False
        have "escapeXml (y # ys) \<noteq> [] \<and> \<not> is_low_surrogate (hd (escapeXml (y # ys)))"
        proof (cases "is_high_surrogate y")
          case True
          with False show ?thesis by (simp add: escapeXml_Cons escape_unit_surrogate)
        next
          case nh: False
          from escape_unit_free [OF nh False] show ?thesis
            by (cases "escape_unit y")
              (auto simp add: escapeXml_Cons surrogate_free_Cons escape_unit_def js_def split: if_splits)
        qed
        then obtain z zs where "escapeXml (y # ys) = z # zs" "\<not> is_low_surrogate z"
          by (cases "escapeXml (y # ys)") auto
        with True Cons False show ?thesis
          by (simp add: escapeXml_Cons [of x] escape_unit_surrogate)
      qed
    qed
  next
    case False
    show ?thesis
    proof (cases "is_low_surrogate x")
      case True
      with False show ?thesis
        by (simp add: escapeXml_Cons escape_unit_surrogate)
    next
      case nl: False
      from escape_unit_free [OF False nl] 2 False nl show ?thesis
        by (simp add: escapeXml_Cons wf_skip_prefix)
    qed
  qed
qed

lemma surrogate_free_truncate: "surrogate_free t \<Longrightarrow> surrogate_free (truncate_text t n)"
  by (auto simp add: truncate_text_def slice0_def surrogate_free_def js_def cu_not_surrogate
      dest: in_set_takeD)

section \<open>The render functions\<close>

lemma surrogate_free_nl: "surrogate_free (nl k)"
  by (simp add: nl_def surrogate_free_def is_high_surrogate_def is_low_surrogate_def)

lemma surrogate_free_COLORS:
  "surrogate_free (background COLORS)" "surrogate_free (textPrimary COLORS)"
  "surrogate_free (textMuted COLORS)" "surrogate_free (border COLORS)"
  "surrogate_free (error COLORS)"
  by (simp_all add: COLORS_def surrogate_free_js)

lemma glyph_not_surrogate:
  "\<not> is_high_surrogate 0x26A0" "\<not> is_low_surrogate 0x26A0"
  "\<not> is_high_surrogate 0x2699" "\<not> is_low_surrogate 0x2699"
  by (simp_all add: is_high_surrogate_def is_low_surrogate_def)

lemma uriUnreserved_not_surrogate:
  "uriUnreserved x \<Longrightarrow> \<not> is_high_surrogate x \<and> \<not> is_low_surrogate x"
  using cu_not_surrogate by (auto simp add: uriUnreserved_def js_def)

lemma surrogate_free_escapeXml: "surrogate_free t \<Longrightarrow> surrogate_free (escapeXml t)"
  by (induction t)
    (simp_all add: escapeXml_Nil escapeXml_Cons surrogate_free_Cons surrogate_free_append
      escape_unit_free)

lemma wf_suffix:
  "surrogate_free q \<Longrightarrow> q \<noteq> [] \<Longrightarrow> isWellFormed (s @ q) = isWellFormed s"
  using wf_middle [of q s "[]"] by simp

lemma js_not_Nil: "js (c # cs) \<noteq> []"
  by (simp add: js_def)

lemmas surrogate_free_parts = surrogate_free_js surrogate_free_nl surrogate_free_COLORS
  glyph_not_surrogate surrogate_free_append surrogate_free_Cons

lemma loading_svg_wf: "isWellFormed loading_svg"
  by (simp add: loading_svg_def surrogate_free_wf surrogate_free_parts)

lemma unconfigured_svg_wf: "isWellFormed unconfigured_svg"
  by (simp add: unconfigured_svg_def surrogate_free_wf surrogate_free_parts)

lemma error_svg_wf: "isWellFormed (error_svg message) = isWellFormed (truncate_text message 16)"
  by (simp add: error_svg_def wf_skip_prefix wf_suffix surrogate_free_parts js_not_Nil
      wf_escapeXml)

lemma encode_from_wf:
  "(isWellFormed s \<and> (\<exists>y. encode_from s = Inr y)) \<or>
   (\<not> isWellFormed s \<and> encode_from s = Inl URIError)"
proof (induction s rule: isWellFormed.induct)
  case 1
  then show ?case by simp
next
  case (2 x xs)
  show ?case
  proof (cases "is_high_surrogate x")
    case True
    with uriUnreserved_not_surrogate [of x] have nu: "\<not> uriUnreserved x"
      by blast
    show ?thesis
    proof (cases xs)
      case Nil
      with True nu show ?thesis by simp
    next
      case (Cons y ys)
      show ?thesis
      proof (cases "is_low_surrogate y")
        case low: True
        from "2.IH"(1) [OF True Cons] have
          "(isWellFormed ys \<and> (\<exists>z. encode_from ys = Inr z)) \<or>
           (\<not> isWellFormed ys \<and> encode_from ys = Inl URIError)" .
        with True nu Cons low show ?thesis
          by (cases "encode_from ys") auto
      next
        case False
        with True nu Cons show ?thesis by simp
      qed
    qed
  next
    case False
    show ?thesis
    proof (cases "is_low_surrogate x")
      case True
      with False uriUnreserved_not_surrogate [of x] show ?thesis by auto
    next
      case nl: False
      from "2.IH"(2) [OF False nl] have
        "(isWellFormed xs \<and> (\<exists>z. encode_from xs = Inr z)) \<or>
         (\<not> isWellFormed xs \<and> encode_from xs = Inl URIError)" .
      with False nl show ?thesis
        by (cases "encode_from xs") auto
    qed
  qed
qed

lemma data_uri_wf:
  "data_uri svg = (if isWellFormed svg then Inr (projr (data_uri svg)) else Inl URIError)"
proof (cases "isWellFormed svg")
  case True
  with encode_from_wf [of svg] obtain y where "encode_from svg = Inr y"
    by blast
  then have "data_uri svg = Inr (js ''data:image/svg+xml,'' @ y)"
    by (simp add: data_uri_def encodeURIComponent_def)
  with True show ?thesis by simp
next
  case False
  with encode_from_wf [of svg] have "encode_from svg = Inl URIError"
    by blast
  with False show ?thesis
    by (simp add: data_uri_def encodeURIComponent_def)
qed

lemma renderLoadingImage_eq: "renderLoadingImage = Inr LoadingImage"
  unfolding renderLoadingImage_def LoadingImage_def
  by (subst data_uri_wf) (simp add: loading_svg_wf)

lemma renderUnconfiguredImage_eq: "renderUnconfiguredImage = Inr UnconfiguredImage"
  unfolding renderUnconfiguredImage_def UnconfiguredImage_def
  by (subst data_uri_wf) (simp add: unconfigured_svg_wf)

lemma renderErrorImage_eq:
  "renderErrorImage message =
     (if isWellFormed (truncate_text message 16) then Inr (ErrorImage message) else Inl URIError)"
  unfolding renderErrorImage_def ErrorImage_def
  by (subst data_uri_wf) (simp add: error_svg_wf)

lemma renderKeyImage_eq:
  "renderKeyImage options =
     (if isWellFormed (key_svg options) then Inr (KeyImage options) else Inl URIError)"
  unfolding renderKeyImage_def KeyImage_def
  by (subst data_uri_wf) simp

lemma truncate_text_Nil: "truncate_text [] n = (if n < 0 then js ''..'' else [])"
  by (simp add: truncate_text_def slice0_def)

lemma key_svg_wf:
  "isWellFormed
     (key_svg \<lparr>line1 = Some (js ''Label''), line2 = js ''Value'', line3 = r,
                accentColor = js ''#58a6ff''\<rparr>) =
   (case r of None \<Rightarrow> True | Some str \<Rightarrow> isWellFormed (truncate_text str 18))"
proof (cases "truthy r")
  case True
  then obtain str where r: "r = Some str" "str \<noteq> []"
    by (cases r) auto
  show ?thesis
    unfolding r key_svg_def Let_def
    by (simp add: wf_skip_prefix wf_suffix surrogate_free_parts js_not_Nil wf_escapeXml
        surrogate_free_escapeXml surrogate_free_truncate r(2))
next
  case False
  then have "r = None \<or> r = Some []"
    by (cases r) auto
  then show ?thesis
    unfolding key_svg_def Let_def
    by (auto simp add: wf_skip_prefix surrogate_free_wf surrogate_free_parts
        surrogate_free_escapeXml surrogate_free_truncate truncate_text_Nil)
qed


lemma encode_from_prefix:
  "surrogate_free p \<Longrightarrow>
     \<exists>ep. \<forall>s y. encode_from s = Inr y \<longrightarrow> encode_from (p @ s) = Inr (ep @ y)"
proof (induction p)
  case Nil
  have "\<forall>s y. encode_from s = Inr y \<longrightarrow> encode_from ([] @ s) = Inr ([] @ y)"
    by simp
  then show ?case by blast
next
  case (Cons x p)
  then obtain ep where ep: "\<And>s y. encode_from s = Inr y \<Longrightarrow> encode_from (p @ s) = Inr (ep @ y)"
    by (auto simp add: surrogate_free_Cons)
  from Cons.prems have x: "\<not> is_high_surrogate x" "\<not> is_low_surrogate x"
    by (simp_all add: surrogate_free_Cons)
  show ?case
  proof (cases "uriUnreserved x")
    case True
    then have "\<forall>s y. encode_from s = Inr y \<longrightarrow>
        encode_from ((x # p) @ s) = Inr ((x # ep) @ y)"
      by (simp add: ep)
    then show ?thesis by blast
  next
    case False
    with x have "\<forall>s y. encode_from s = Inr y \<longrightarrow>
        encode_from ((x # p) @ s) = Inr ((percent_encoded (unat x) @ ep) @ y)"
      by (simp add: ep)
    then show ?thesis by blast
  qed
qed

lemma data_uri_differ:
  assumes "surrogate_free p" and "uriUnreserved x" and "uriUnreserved y" and "x \<noteq> y"
    and "data_uri (p @ x # r1) = Inr a" and "data_uri (p @ y # r2) = Inr b"
  shows "a \<noteq> b"
proof -
  from encode_from_prefix [OF assms(1)] obtain ep
    where ep: "\<And>s z. encode_from s = Inr z \<Longrightarrow> encode_from (p @ s) = Inr (ep @ z)"
    by blast
  from assms(5) have w1: "isWellFormed (p @ x # r1)"
    using data_uri_wf [of "p @ x # r1"] by (auto split: if_splits)
  from assms(6) have w2: "isWellFormed (p @ y # r2)"
    using data_uri_wf [of "p @ y # r2"] by (auto split: if_splits)
  from w1 assms(1) have "isWellFormed (x # r1)"
    by (simp add: wf_skip_prefix)
  with encode_from_wf [of "x # r1"] obtain a' where a': "encode_from (x # r1) = Inr a'"
    by blast
  with assms(2) obtain a'' where "a' = x # a''"
    by (cases "encode_from r1") auto
  with ep [OF a'] assms(5) have a: "a = js ''data:image/svg+xml,'' @ ep @ x # a''"
    by (simp add: data_uri_def encodeURIComponent_def)
  from w2 assms(1) have "isWellFormed (y # r2)"
    by (simp add: wf_skip_prefix)
  with encode_from_wf [of "y # r2"] obtain b' where b': "encode_from (y # r2) = Inr b'"
    by blast
  with assms(3) obtain b'' where "b' = y # b''"
    by (cases "encode_from r2") auto
  with ep [OF b'] assms(6) have b: "b = js ''data:image/svg+xml,'' @ ep @ y # b''"
    by (simp add: data_uri_def encodeURIComponent_def)
  from a b assms(4) show ?thesis by simp
qed

lemma uriUnreserved_samples:
  "uriUnreserved (cu CHR ''3'')" "uriUnreserved (cu CHR ''5'')" "uriUnreserved (cu CHR ''f'')"
  "uriUnreserved (cu CHR ''c'')" "uriUnreserved (cu CHR ''t'')"
  by (simp_all add: uriUnreserved_def js_def)

lemma cu_samples_differ:
  "cu CHR ''3'' \<noteq> cu CHR ''5''" "cu CHR ''3'' \<noteq> cu CHR ''f''" "cu CHR ''c'' \<noteq> cu CHR ''t''"
  by (simp_all add: cu_def)

lemma LoadingImage_not_ErrorImage:
  assumes "isWellFormed (truncate_text message 16)"
  shows "LoadingImage \<noteq> ErrorImage message"
proof -
  define p where \<open>p =
     js ''<svg xmlns="http://www.w3.org/2000/svg" width="144" height="144" viewBox="0 0 144 144">'' @ nl 2 @
     js ''<rect width="144" height="144" rx="16" fill="'' @ background COLORS @ js ''"/>'' @ nl 2 @
     js ''<rect width="144" height="6" rx="3" fill="#''\<close>
  have p: "surrogate_free p"
    by (simp add: p_def surrogate_free_parts)
  obtain r1 where r1: "loading_svg = p @ cu CHR ''3'' # r1"
    by (simp add: loading_svg_def p_def COLORS_def js_def)
  obtain r2 where r2: "error_svg message = p @ cu CHR ''f'' # r2"
    by (simp add: error_svg_def p_def COLORS_def js_def)
  have "data_uri (p @ cu CHR ''3'' # r1) = Inr LoadingImage"
    using renderLoadingImage_eq by (simp add: renderLoadingImage_def r1)
  moreover have "data_uri (p @ cu CHR ''f'' # r2) = Inr (ErrorImage message)"
    using renderErrorImage_eq [of message] assms by (simp add: renderErrorImage_def r2)
  ultimately show ?thesis
    using data_uri_differ [OF p uriUnreserved_samples(1,3) cu_samples_differ(2)] by blast
qed

lemma LoadingImage_not_KeyImage:
  assumes "accentColor options = js ''#58a6ff''" and "isWellFormed (key_svg options)"
  shows "LoadingImage \<noteq> KeyImage options"
proof -
  define p where \<open>p =
     js ''<svg xmlns="http://www.w3.org/2000/svg" width="144" height="144" viewBox="0 0 144 144">'' @ nl 2 @
     js ''<rect width="144" height="144" rx="16" fill="'' @ background COLORS @ js ''"/>'' @ nl 2 @
     js ''<rect width="144" height="6" rx="3" fill="#''\<close>
  have p: "surrogate_free p"
    by (simp add: p_def surrogate_free_parts)
  obtain r1 where r1: "loading_svg = p @ cu CHR ''3'' # r1"
    by (simp add: loading_svg_def p_def COLORS_def js_def)
  obtain r2 where r2: "key_svg options = p @ cu CHR ''5'' # r2"
    by (simp add: key_svg_def p_def COLORS_def js_def assms(1) Let_def)
  have "data_uri (p @ cu CHR ''3'' # r1) = Inr LoadingImage"
    using renderLoadingImage_eq by (simp add: renderLoadingImage_def r1)
  moreover have "data_uri (p @ cu CHR ''5'' # r2) = Inr (KeyImage options)"
    using renderKeyImage_eq [of options] assms(2) by (simp add: renderKeyImage_def r2)
  ultimately show ?thesis
    using data_uri_differ [OF p uriUnreserved_samples(1,2) cu_samples_differ(1)] by blast
qed

lemma LoadingImage_not_UnconfiguredImage: "LoadingImage \<noteq> UnconfiguredImage"
proof -
  define p where \<open>p =
     js ''<svg xmlns="http://www.w3.org/2000/svg" width="144" height="144" viewBox="0 0 144 144">'' @ nl 2 @
     js ''<rect width="144" height="144" rx="16" fill="'' @ background COLORS @ js ''"/>'' @ nl 2 @
     js ''<rect width="144" height="6" rx="3" fill="'' @ border COLORS @ js ''"/>'' @ nl 2 @
     js ''<''\<close>
  have p: "surrogate_free p"
    by (simp add: p_def surrogate_free_parts)
  obtain r1 where r1: "loading_svg = p @ cu CHR ''c'' # r1"
    by (simp add: loading_svg_def p_def COLORS_def js_def)
  obtain r2 where r2: "unconfigured_svg = p @ cu CHR ''t'' # r2"
    by (simp add: unconfigured_svg_def p_def COLORS_def js_def)
  have "data_uri (p @ cu CHR ''c'' # r1) = Inr LoadingImage"
    using renderLoadingImage_eq by (simp add: renderLoadingImage_def r1)
  moreover have "data_uri (p @ cu CHR ''t'' # r2) = Inr UnconfiguredImage"
    using renderUnconfiguredImage_eq by (simp add: renderUnconfiguredImage_def r2)
  ultimately show ?thesis
    using data_uri_differ [OF p uriUnreserved_samples(4,5) cu_samples_differ(3)] by blast
qed

section \<open>Rounding to a double and the period of a timer\<close>

lemma pow2_nat: "0 \<le> k \<Longrightarrow> (2::rat) powi k = 2 ^ nat k"
  by (simp add: power_int_def)

lemma floor_log2_bounds:
  assumes "0 < a"
  shows "2 powi (floor_log2 a) \<le> a \<and> a < 2 powi (floor_log2 a + 1)"
proof -
  obtain n d where q: "quotient_of a = (n, d)" by (cases "quotient_of a")
  then have d: "0 < d" and a: "a = of_int n / of_int d"
    using quotient_of_denom_pos [OF q] quotient_of_div [OF q] by simp_all
  from assms a d have n: "0 < n"
    by (simp add: zero_less_divide_iff)
  define k where "k = bitlen n - bitlen d"
  from bitlen_bounds [OF n] have n1: "(2::rat) ^ nat (bitlen n - 1) \<le> of_int n"
    and n2: "(of_int n :: rat) < 2 ^ nat (bitlen n)"
    by (metis of_int_le_iff of_int_numeral of_int_power, metis of_int_less_iff of_int_numeral of_int_power)
  from bitlen_bounds [OF d] have d1: "(2::rat) ^ nat (bitlen d - 1) \<le> of_int d"
    and d2: "(of_int d :: rat) < 2 ^ nat (bitlen d)"
    by (metis of_int_le_iff of_int_numeral of_int_power, metis of_int_less_iff of_int_numeral of_int_power)
  have bn: "1 \<le> bitlen n" and bd: "1 \<le> bitlen d"
    using n d by (auto simp: bitlen_alt_def)
  have dpos: "(0::rat) < of_int d" using d by simp
  have up: "a < (2::rat) powi (k + 1)"
  proof -
    have "a * of_int d = of_int n" using a dpos by simp
    also have "\<dots> < 2 powi (bitlen n)" using n2 bn by (simp add: pow2_nat)
    also have "\<dots> = 2 powi (k + 1) * 2 powi (bitlen d - 1)"
      by (simp add: k_def flip: power_int_add)
    also have "\<dots> \<le> 2 powi (k + 1) * of_int d"
      using d1 bd by (intro mult_left_mono) (simp_all add: pow2_nat)
    finally show ?thesis using dpos by simp
  qed
  have lo: "(2::rat) powi (k - 1) < a"
  proof -
    have "(2::rat) powi (k - 1) * of_int d < 2 powi (k - 1) * 2 powi (bitlen d)"
      using d2 bd by (intro mult_strict_left_mono) (simp_all add: pow2_nat)
    also have "\<dots> = 2 powi (bitlen n - 1)"
      by (simp add: k_def flip: power_int_add)
    also have "\<dots> \<le> of_int n" using n1 bn by (simp add: pow2_nat)
    also have "\<dots> = a * of_int d" using a dpos by simp
    finally show ?thesis using dpos by simp
  qed
  have fl: "floor_log2 a = (if 2 powi k \<le> a then k else k - 1)"
    by (simp add: floor_log2_def q k_def)
  show ?thesis
  proof (cases "2 powi k \<le> a")
    case True
    with up fl show ?thesis by simp
  next
    case False
    with lo fl show ?thesis by simp
  qed
qed


lemma round_half_even_of_int: "round_half_even (of_int z) = z"
  by (simp add: round_half_even_def)



lemma to_double_int:
  assumes "1 \<le> p" and "p < 2 ^ 53"
  shows "to_double (of_int p) = Finite (of_int p)"
proof -
  let ?a = "of_int p :: rat"
  have a: "0 < ?a" "\<bar>?a\<bar> = ?a" using assms by simp_all
  define e where "e = floor_log2 ?a"
  from floor_log2_bounds [OF a(1)] have lo: "2 powi e \<le> ?a" and up: "?a < 2 powi (e + 1)"
    by (simp_all add: e_def)
  have e0: "0 \<le> e"
  proof (rule ccontr)
    assume "\<not> 0 \<le> e"
    then have "e + 1 \<le> 0" by simp
    then have "(2::rat) powi (e + 1) \<le> 2 powi 0"
      by (intro power_int_increasing) simp_all
    with up assms(1) show False by simp
  qed
  have e52: "e \<le> 52"
  proof (rule ccontr)
    assume "\<not> e \<le> 52"
    then have "53 \<le> e" by simp
    then have "(2::rat) powi 53 \<le> 2 powi e"
      by (intro power_int_increasing) simp_all
    with lo have "(2::rat) ^ 53 \<le> of_int p" by simp
    then have "(2::int) ^ 53 \<le> p"
      by (metis of_int_le_iff of_int_numeral of_int_power)
    with assms(2) show False by simp
  qed
  define n where "n = nat (52 - e)"
  have ulp: "(2::rat) powi (e - 52) = 1 / 2 ^ n"
    using e52 by (simp add: n_def power_int_def field_simps)
  have m: "?a / (2 powi (e - 52)) = of_int (p * 2 ^ n)"
    by (simp add: ulp)
  have v: "of_int (round_half_even (?a / (2 powi (e - 52)))) * (2::rat) powi (e - 52) = ?a"
    unfolding m round_half_even_of_int by (simp add: ulp)
  have small: "\<not> (2::rat) powi 1024 \<le> ?a"
  proof -
    have "?a < 2 ^ 53" using assms(2)
      by (metis of_int_less_iff of_int_numeral of_int_power)
    also have "\<dots> \<le> (2::rat) ^ 1024" by (intro power_increasing) simp_all
    finally show ?thesis by simp
  qed
  have mx: "max e (- 1022) = e" using e0 by simp
  from a have nz: "?a \<noteq> 0" by simp
  show ?thesis
    unfolding to_double_def Let_def a(2) e_def [symmetric] mx v
    using nz small a(1) by simp
qed






section \<open>Sequencing and the collaborators: basic facts\<close>

lemma seq_Returned:
  "fst (seq f g s) = Returned \<Longrightarrow> fst (f s) = Returned \<and> seq f g s = g (snd (f s))"
  by (auto simp add: seq_def split: prod.splits completion.splits)

lemma seq_seq_Returned:
  "fst (seq f (seq g (\<lambda>s'. (Returned, upd s'))) s0) = Returned \<Longrightarrow>
     snd (seq f (seq g (\<lambda>s'. (Returned, upd s'))) s0) = upd (snd (g (snd (f s0))))"
  by (auto simp add: seq_def split: prod.splits completion.splits)

lemma accepts_all_eq: "accepts_all = (\<lambda>n. None)"
  by (simp add: accepts_all_def fun_eq_iff)

lemma install_timer_eq:
  "install_timer ev s =
     (Returned,
      s\<lparr>intervals := (intervals s)(next_handle s \<mapsto>
           \<lparr>delay_ms = delay_of (payload_settings ev),
            period_ms = timer_period (delay_of (payload_settings ev)),
            cb_event = ev\<rparr>),
        next_handle := Suc (next_handle s),
        timers := (timers s)(action_id ev \<mapsto> next_handle s)\<rparr>)"
  by (simp add: install_timer_def setInterval_def delay_of_def Let_def)

lemma cycles_begun_append:
  "display s' = display s @ cs \<Longrightarrow> cycles_begun s i \<le> cycles_begun s' i"
  by (simp add: cycles_begun_def)

lemma cycles_begun_cong: "display s' = display s \<Longrightarrow> cycles_begun s' i = cycles_begun s i"
  by (simp add: cycles_begun_def)

section \<open>The images the handlers ask for\<close>

text \<open>
  The loading image and the placeholder always render. The error image renders when
  the cut of its message is well formed, which it is for every ASCII message, and the
  data image when the cut of the resource is.
\<close>

lemma ascii_renders: "isWellFormed (truncate_text (js str) n)"
  by (simp add: surrogate_free_wf surrogate_free_truncate surrogate_free_js)

lemma loading_call: "eval_arg renderLoadingImage k = k LoadingImage"
  by (simp add: eval_arg_def renderLoadingImage_eq)

lemma placeholder_call: "eval_arg renderUnconfiguredImage k = k UnconfiguredImage"
  by (simp add: eval_arg_def renderUnconfiguredImage_eq)

lemma error_call:
  "eval_arg (renderErrorImage m) k =
     (if isWellFormed (truncate_text m 16) then k (ErrorImage m)
      else (\<lambda>s. (Threw URIError, s)))"
  by (simp add: eval_arg_def renderErrorImage_eq)

lemma data_call:
  "eval_arg
     (renderKeyImage
        \<lparr>line1 = Some (js ''Label''), line2 = js ''Value'', line3 = resource st,
         accentColor = js ''#58a6ff''\<rparr>) k =
     (if data_renders st then k (data_image st) else (\<lambda>s. (Threw URIError, s)))"
  by (simp add: eval_arg_def renderKeyImage_eq key_svg_wf data_renders_def data_image_def)

lemma message_of_URIError: "message_of URIError = js ''URI malformed''"
  by (simp add: URIError_def)

text \<open>No other image is the loading image.\<close>

lemma ErrorImage_not_loading:
  "isWellFormed (truncate_text m 16) \<Longrightarrow> ErrorImage m \<noteq> LoadingImage"
  using LoadingImage_not_ErrorImage [of m] by auto

lemma data_image_not_loading: "data_renders st \<Longrightarrow> data_image st \<noteq> LoadingImage"
  using LoadingImage_not_KeyImage
    [of "\<lparr>line1 = Some (js ''Label''), line2 = js ''Value'', line3 = resource st,
          accentColor = js ''#58a6ff''\<rparr>"]
  by (auto simp add: data_image_def data_renders_def key_svg_wf)

lemma UnconfiguredImage_not_loading: "UnconfiguredImage \<noteq> LoadingImage"
  using LoadingImage_not_UnconfiguredImage by auto

lemmas not_loading = ErrorImage_not_loading data_image_not_loading UnconfiguredImage_not_loading
  ascii_renders

text \<open>The three parts of \<^verbatim>\<open>refresh\<close>, with the render calls resolved.\<close>

lemma refresh_begin_eq:
  "refresh_begin e ev = seq (setImage e (action_id ev) LoadingImage) (setTitle e (action_id ev) '''')"
  by (simp add: refresh_begin_def loading_call)

lemma refresh_try_eq:
  "refresh_try e ev r =
     (case r of
        Inl err \<Rightarrow> (\<lambda>s. (Threw err, s))
      | Inr g \<Rightarrow>
          if \<not> truthy (apiToken g)
          then seq (setImage e (action_id ev) (ErrorImage (js ''No Token'')))
                   (setTitle e (action_id ev) '''')
          else if data_renders (payload_settings ev)
          then seq (setImage e (action_id ev) (data_image (payload_settings ev)))
                   (setTitle e (action_id ev) '''')
          else (\<lambda>s. (Threw URIError, s)))"
  by (simp add: refresh_try_def error_call data_call ascii_renders seq_def fun_eq_iff
      split: sum.splits)

lemma refresh_catch_eq:
  "refresh_catch e ev err =
     (if isWellFormed (truncate_text (message_of err) 16)
      then seq (setImage e (action_id ev) (ErrorImage (message_of err)))
               (setTitle e (action_id ev) '''')
      else (\<lambda>s. (Threw URIError, s)))"
  by (simp add: refresh_catch_def error_call seq_def fun_eq_iff)

lemmas refresh_eqs = refresh_def refresh_begin_eq refresh_settle_def refresh_try_eq
  refresh_catch_eq seq_def try_catch_def setImage_def setTitle_def display_call_def
  getGlobalSettings_def

section \<open>\<^verbatim>\<open>refresh\<close>\<close>

text \<open>A refresh cycle touches neither the action's map nor the timer table.\<close>

lemma refresh_settle_frame:
  "timers (snd (refresh_settle e ev r s)) = timers s \<and>
   intervals (snd (refresh_settle e ev r s)) = intervals s \<and>
   next_handle (snd (refresh_settle e ev r s)) = next_handle s \<and>
   global_reads (snd (refresh_settle e ev r s)) = global_reads s"
  by (simp add: refresh_eqs
      split: option.splits sum.splits prod.splits completion.splits if_splits)

lemma refresh_begin_frame:
  "timers (snd (refresh_begin e ev s)) = timers s \<and>
   intervals (snd (refresh_begin e ev s)) = intervals s \<and>
   next_handle (snd (refresh_begin e ev s)) = next_handle s \<and>
   global_reads (snd (refresh_begin e ev s)) = global_reads s"
  by (simp add: refresh_eqs split: option.splits prod.splits completion.splits)

lemma refresh_frame:
  "timers (snd (refresh e ev s)) = timers s \<and> intervals (snd (refresh e ev s)) = intervals s \<and>
   next_handle (snd (refresh e ev s)) = next_handle s"
proof (cases "refresh_begin e ev s")
  case (Pair c s1)
  with refresh_begin_frame [of e ev s]
    refresh_settle_frame [of e ev "global_outcome e (global_reads s1)"
      "s1\<lparr>global_reads := Suc (global_reads s1)\<rparr>"]
  show ?thesis
    by (cases c) (simp_all add: refresh_def seq_def getGlobalSettings_def)
qed

text \<open>The first half asks for the loading image once; the second half never does.\<close>

lemma refresh_begin_display:
  "\<exists>cs. display (snd (refresh_begin e ev s)) =
          display s @ (action_id ev, SetImage LoadingImage) # cs \<and>
        set cs \<subseteq> {(action_id ev, SetTitle '''')}"
  by (simp add: refresh_eqs split: option.splits prod.splits completion.splits)

lemma refresh_settle_grows:
  "\<exists>cs. display (snd (refresh_settle e ev r s)) = display s @ cs \<and>
        (\<forall>c \<in> set cs. snd c \<noteq> SetImage LoadingImage)"
  by (simp add: refresh_eqs not_loading
      split: option.splits sum.splits prod.splits completion.splits if_splits)

lemma refresh_display:
  "\<exists>cs. display (snd (refresh e ev s)) = display s @ (action_id ev, SetImage LoadingImage) # cs \<and>
        (\<forall>c \<in> set cs. snd c \<noteq> SetImage LoadingImage)"
proof (cases "refresh_begin e ev s")
  case (Pair c s1)
  from refresh_begin_display [of e ev s] Pair obtain cs1 where
    d1: "display s1 = display s @ (action_id ev, SetImage LoadingImage) # cs1"
    and c1: "set cs1 \<subseteq> {(action_id ev, SetTitle '''')}"
    by auto
  show ?thesis
  proof (cases c)
    case Returned
    let ?s2 = "s1\<lparr>global_reads := Suc (global_reads s1)\<rparr>"
    from refresh_settle_grows [of e ev "global_outcome e (global_reads s1)" ?s2]
    obtain cs2 where
      d2: "display (snd (refresh_settle e ev (global_outcome e (global_reads s1)) ?s2)) =
             display s1 @ cs2"
      and c2: "\<forall>c \<in> set cs2. snd c \<noteq> SetImage LoadingImage"
      by auto
    from Pair Returned have
      "refresh e ev s = refresh_settle e ev (global_outcome e (global_reads s1)) ?s2"
      by (simp add: refresh_def seq_def getGlobalSettings_def)
    with d1 d2 have "display (snd (refresh e ev s)) =
        display s @ (action_id ev, SetImage LoadingImage) # (cs1 @ cs2)"
      by simp
    moreover from c1 c2 have "\<forall>c \<in> set (cs1 @ cs2). snd c \<noteq> SetImage LoadingImage"
      by auto
    ultimately show ?thesis by blast
  next
    case (Threw err)
    with Pair have "snd (refresh e ev s) = s1"
      by (simp add: refresh_def seq_def)
    with d1 c1 show ?thesis by auto
  qed
qed

lemma count_loading:
  assumes "\<forall>c \<in> set cs. snd c \<noteq> SetImage LoadingImage"
  shows "filter (\<lambda>c. c = (i, SetImage LoadingImage)) cs = []"
  using assms by (auto simp add: filter_empty_conv)

lemma refresh_cycles:
  "cycles_begun (snd (refresh e ev s)) i = cycles_begun s i + (if i = action_id ev then 1 else 0)"
proof -
  from refresh_display [of e ev s] obtain cs where
    d: "display (snd (refresh e ev s)) = display s @ (action_id ev, SetImage LoadingImage) # cs"
    and cs: "\<forall>c \<in> set cs. snd c \<noteq> SetImage LoadingImage"
    by blast
  from count_loading [OF cs] show ?thesis
    by (auto simp add: cycles_begun_def d)
qed




text \<open>With a host that accepts every display call the whole cycle is determined.\<close>

lemma refresh_resolved:
  assumes "display_outcome e = (\<lambda>n. None)"
  shows "refresh e ev s =
     (case settled_image ev (global_outcome e (global_reads s)) of
        Some img \<Rightarrow>
          (Returned,
           s\<lparr>display := display s @
                [(action_id ev, SetImage LoadingImage), (action_id ev, SetTitle ''''),
                 (action_id ev, SetImage img), (action_id ev, SetTitle '''')],
             global_reads := Suc (global_reads s)\<rparr>)
      | None \<Rightarrow>
          (Threw URIError,
           s\<lparr>display := display s @
                [(action_id ev, SetImage LoadingImage), (action_id ev, SetTitle '''')],
             global_reads := Suc (global_reads s)\<rparr>))"
  using assms
  by (simp add: refresh_eqs settled_image_def message_of_URIError ascii_renders
      split: option.splits sum.splits prod.splits completion.splits if_splits)

text \<open>
  The tail shared by \<^verbatim>\<open>onWillAppear\<close> and \<^verbatim>\<open>onDidReceiveSettings\<close>, when it returns:
  the state the refresh left, with one more interval and the map entry pointing at it.
\<close>

lemma refresh_then_install:
  assumes "fst (seq (refresh e ev) (install_timer ev) s) = Returned"
  shows "snd (seq (refresh e ev) (install_timer ev) s) =
     (snd (refresh e ev s))
       \<lparr>intervals := (intervals s)(next_handle s \<mapsto>
           \<lparr>delay_ms = delay_of (payload_settings ev),
            period_ms = timer_period (delay_of (payload_settings ev)),
            cb_event = ev\<rparr>),
        next_handle := Suc (next_handle s),
        timers := (timers s)(action_id ev \<mapsto> next_handle s)\<rparr>"
  using seq_Returned [OF assms] refresh_frame [of e ev s]
  by (simp add: install_timer_eq)

section \<open>The display log only grows\<close>

lemma placeholder_grows:
  "\<exists>cs. display (snd (seq (setImage e i UnconfiguredImage) (setTitle e i '''') s)) = display s @ cs"
  by (simp add: seq_def setImage_def setTitle_def display_call_def
      split: option.splits prod.splits completion.splits)

lemma seq_install_display:
  "display (snd (seq f (install_timer ev) s)) = display (snd (f s))"
  by (simp add: seq_def install_timer_eq split: prod.splits completion.splits)

lemma onWillAppear_grows: "\<exists>cs. display (snd (onWillAppear e ev s)) = display s @ cs"
  using refresh_display [of e ev s] placeholder_grows [of e "action_id ev" s]
  by (auto simp add: onWillAppear_def placeholder_call seq_install_display)

lemma onKeyDown_grows: "\<exists>cs. display (snd (onKeyDown e ev s)) = display s @ cs"
  using refresh_display [of e ev s]
  by (auto simp add: onKeyDown_def)

lemma onWillDisappear_display: "display (snd (onWillDisappear ev s)) = display s"
  by (simp add: onWillDisappear_def Let_def clearInterval_def split: option.splits)

lemma onDidReceiveSettings_grows:
  "\<exists>cs. display (snd (onDidReceiveSettings e ev s)) = display s @ cs"
proof -
  define s0 where "s0 = cancel_registered (action_id ev) s"
  have d0: "display s0 = display s"
    by (simp add: s0_def cancel_registered_def clearInterval_def split: option.splits)
  show ?thesis
  proof (cases "truthy (resource (payload_settings ev))")
    case True
    then have "display (snd (onDidReceiveSettings e ev s)) = display (snd (refresh e ev s0))"
      by (simp add: onDidReceiveSettings_def placeholder_call s0_def cancel_registered_def seq_install_display)
    with refresh_display [of e ev s0] d0 show ?thesis by auto
  next
    case False
    then have "onDidReceiveSettings e ev s =
      seq (setImage e (action_id ev) UnconfiguredImage)
        (seq (setTitle e (action_id ev) '''')
           (\<lambda>s'. (Returned, s'\<lparr>timers := (timers s')(action_id ev := None)\<rparr>))) s0"
      by (simp add: onDidReceiveSettings_def placeholder_call s0_def cancel_registered_def)
    with d0 show ?thesis
      by (simp add: seq_def setImage_def setTitle_def display_call_def
          split: option.splits prod.splits completion.splits)
  qed
qed

lemma dispatch_grows: "\<exists>cs. display (snd (dispatch e c s)) = display s @ cs"
  by (cases c) (simp_all add: onWillAppear_grows onKeyDown_grows onWillDisappear_display
      onDidReceiveSettings_grows)

section \<open>Handles are fresh\<close>

lemma handles_fresh_init: "handles_fresh init"
  by (simp add: handles_fresh_def init_def)

lemma handles_fresh_next: "handles_fresh s \<Longrightarrow> intervals s (next_handle s) = None"
  by (simp add: handles_fresh_def)

lemma cancel_registered_fresh: "handles_fresh s \<Longrightarrow> handles_fresh (cancel_registered i s)"
  by (simp add: handles_fresh_def cancel_registered_def clearInterval_def split: option.splits)

lemma refresh_fresh: "handles_fresh s \<Longrightarrow> handles_fresh (snd (refresh e ev s))"
  using refresh_frame [of e ev s] by (simp add: handles_fresh_def)

lemma install_timer_fresh: "handles_fresh s \<Longrightarrow> handles_fresh (snd (install_timer ev s))"
  by (simp add: handles_fresh_def install_timer_eq)

lemma refresh_install_fresh:
  assumes "handles_fresh s"
  shows "handles_fresh (snd (seq (refresh e ev) (install_timer ev) s))"
proof (cases "fst (refresh e ev s)")
  case Returned
  then have "seq (refresh e ev) (install_timer ev) s = install_timer ev (snd (refresh e ev s))"
    by (cases "refresh e ev s") (simp add: seq_def)
  with assms show ?thesis
    by (simp add: install_timer_fresh refresh_fresh)
next
  case (Threw err)
  then have "snd (seq (refresh e ev) (install_timer ev) s) = snd (refresh e ev s)"
    by (cases "refresh e ev s") (simp add: seq_def)
  with assms show ?thesis
    by (simp add: refresh_fresh)
qed

lemma dispatch_fresh:
  assumes "handles_fresh s"
  shows "handles_fresh (snd (dispatch e c s))"
proof (cases c)
  case (WillAppear ev)
  show ?thesis
  proof (cases "truthy (resource (payload_settings ev))")
    case True
    with refresh_install_fresh [OF assms] WillAppear show ?thesis
      by (simp add: onWillAppear_def placeholder_call)
  next
    case False
    with assms WillAppear show ?thesis
      by (simp add: handles_fresh_def onWillAppear_def placeholder_call seq_def setImage_def setTitle_def
          display_call_def split: option.splits prod.splits completion.splits)
  qed
next
  case (WillDisappear ev)
  with assms show ?thesis
    by (simp add: handles_fresh_def onWillDisappear_def clearInterval_def Let_def
        split: option.splits)
next
  case (KeyDown ev)
  with assms show ?thesis
    by (simp add: onKeyDown_def refresh_fresh)
next
  case (DidReceiveSettings ev)
  let ?s0 = "cancel_registered (action_id ev) s"
  have f0: "handles_fresh ?s0"
    using assms by (rule cancel_registered_fresh)
  show ?thesis
  proof (cases "truthy (resource (payload_settings ev))")
    case True
    then have "onDidReceiveSettings e ev s = seq (refresh e ev) (install_timer ev) ?s0"
      by (simp add: onDidReceiveSettings_def placeholder_call cancel_registered_def)
    with refresh_install_fresh [OF f0] DidReceiveSettings show ?thesis by simp
  next
    case False
    then have eq: "onDidReceiveSettings e ev s =
      seq (setImage e (action_id ev) UnconfiguredImage)
        (seq (setTitle e (action_id ev) '''')
           (\<lambda>s'. (Returned, s'\<lparr>timers := (timers s')(action_id ev := None)\<rparr>))) ?s0"
      by (simp add: onDidReceiveSettings_def placeholder_call cancel_registered_def)
    from f0 have "handles_fresh (snd (onDidReceiveSettings e ev s))"
      unfolding eq
      by (simp add: handles_fresh_def seq_def setImage_def setTitle_def display_call_def
          split: option.splits prod.splits completion.splits)
    with DidReceiveSettings show ?thesis by simp
  qed
qed

text \<open>Every state reached from a fresh action has fresh handles.\<close>

lemma run_fresh: "handles_fresh s \<Longrightarrow> handles_fresh (run e cs s)"
  by (induction cs arbitrary: s) (simp_all add: dispatch_fresh)

section \<open>Who owns the active timers\<close>

lemma timers_owned_init: "timers_owned init"
  by (simp add: timers_owned_def init_def)

lemma timers_ownedD:
  "timers_owned s \<Longrightarrow> intervals s h = Some iv \<Longrightarrow>
     timers s (action_id (cb_event iv)) = Some h"
  by (simp add: timers_owned_def)

lemma timers_owned_at_most_one:
  "timers_owned s \<Longrightarrow> active_timers s i \<subseteq> (case timers s i of None \<Rightarrow> {} | Some h \<Rightarrow> {h})"
  by (auto simp add: timers_owned_def active_timers_def split: option.splits)

lemma timers_owned_frame:
  "timers_owned s \<Longrightarrow> timers s' = timers s \<Longrightarrow> intervals s' = intervals s \<Longrightarrow> timers_owned s'"
  by (simp add: timers_owned_def)

text \<open>Cancelling the registered timer of \<open>i\<close> leaves no active interval for \<open>i\<close>.\<close>

lemma cancel_registered_owned:
  assumes "timers_owned s"
  shows "timers_owned (cancel_registered i s) \<and> active_timers (cancel_registered i s) i = {}"
proof
  show "timers_owned (cancel_registered i s)"
    using assms
    by (auto simp add: timers_owned_def cancel_registered_def clearInterval_def
        split: option.splits if_splits)
  show "active_timers (cancel_registered i s) i = {}"
    using timers_ownedD [OF assms]
    by (fastforce simp add: cancel_registered_def clearInterval_def active_timers_def
        split: option.splits if_splits)
qed

lemma drop_entry_owned:
  assumes "timers_owned s" and "active_timers s i = {}"
  shows "timers_owned (s\<lparr>timers := (timers s)(i := None)\<rparr>)"
  unfolding timers_owned_def
proof (intro allI impI)
  fix h iv
  assume "intervals (s\<lparr>timers := (timers s)(i := None)\<rparr>) h = Some iv"
  then have iv: "intervals s h = Some iv" by simp
  with assms(2) have "action_id (cb_event iv) \<noteq> i"
    by (auto simp add: active_timers_def)
  with timers_ownedD [OF assms(1) iv]
  show "timers (s\<lparr>timers := (timers s)(i := None)\<rparr>) (action_id (cb_event iv)) = Some h"
    by simp
qed

lemma install_timer_owned:
  assumes "timers_owned s" and "active_timers s (action_id ev) = {}"
  shows "timers_owned (snd (install_timer ev s))"
  using assms
  by (auto simp add: timers_owned_def install_timer_eq active_timers_def split: if_splits)

lemma refresh_owned: "timers_owned s \<Longrightarrow> timers_owned (snd (refresh e ev s))"
  using refresh_frame [of e ev s] by (auto intro: timers_owned_frame)

lemma refresh_active: "active_timers (snd (refresh e ev s)) i = active_timers s i"
  using refresh_frame [of e ev s] by (simp add: active_timers_def)

lemma refresh_install_owned:
  assumes "timers_owned s" and "active_timers s (action_id ev) = {}"
  shows "timers_owned (snd (seq (refresh e ev) (install_timer ev) s))"
proof (cases "fst (refresh e ev s)")
  case Returned
  then have "seq (refresh e ev) (install_timer ev) s = install_timer ev (snd (refresh e ev s))"
    by (cases "refresh e ev s") (simp add: seq_def)
  with assms show ?thesis
    by (simp add: install_timer_owned refresh_owned refresh_active)
next
  case (Threw err)
  then have "snd (seq (refresh e ev) (install_timer ev) s) = snd (refresh e ev s)"
    by (cases "refresh e ev s") (simp add: seq_def)
  with assms show ?thesis
    by (simp add: refresh_owned)
qed

lemma placeholder_frame:
  "timers (snd (seq (setImage e i UnconfiguredImage) (setTitle e i '''') s)) = timers s \<and>
   intervals (snd (seq (setImage e i UnconfiguredImage) (setTitle e i '''') s)) = intervals s"
  by (simp add: seq_def setImage_def setTitle_def display_call_def
      split: option.splits prod.splits completion.splits)

lemma onWillDisappear_owned:
  assumes "timers_owned s"
  shows "timers_owned (snd (onWillDisappear ev s))"
proof -
  have "snd (onWillDisappear ev s) =
      (cancel_registered (action_id ev) s)
        \<lparr>timers := (timers (cancel_registered (action_id ev) s))(action_id ev := None)\<rparr>"
    by (simp add: onWillDisappear_def cancel_registered_def Let_def)
  with cancel_registered_owned [OF assms, of "action_id ev"] show ?thesis
    by (simp add: drop_entry_owned)
qed

lemma onKeyDown_owned: "timers_owned s \<Longrightarrow> timers_owned (snd (onKeyDown e ev s))"
  by (simp add: onKeyDown_def refresh_owned)

text \<open>
  \<^verbatim>\<open>onDidReceiveSettings\<close> cancels the registered timer before it installs the new
  one, so it keeps the property from any state.
\<close>

lemma onDidReceiveSettings_owned:
  assumes "timers_owned s"
  shows "timers_owned (snd (onDidReceiveSettings e ev s))"
proof -
  let ?s0 = "cancel_registered (action_id ev) s"
  from cancel_registered_owned [OF assms, of "action_id ev"]
  have o: "timers_owned ?s0" and a: "active_timers ?s0 (action_id ev) = {}"
    by simp_all
  show ?thesis
  proof (cases "truthy (resource (payload_settings ev))")
    case True
    then have "onDidReceiveSettings e ev s = seq (refresh e ev) (install_timer ev) ?s0"
      by (simp add: onDidReceiveSettings_def placeholder_call cancel_registered_def)
    with refresh_install_owned [OF o a] show ?thesis by simp
  next
    case False
    then have eq: "onDidReceiveSettings e ev s =
      seq (setImage e (action_id ev) UnconfiguredImage)
        (seq (setTitle e (action_id ev) '''')
           (\<lambda>s'. (Returned, s'\<lparr>timers := (timers s')(action_id ev := None)\<rparr>))) ?s0"
      by (simp add: onDidReceiveSettings_def placeholder_call cancel_registered_def)
    from o a show ?thesis
      unfolding eq
      by (auto simp add: timers_owned_def active_timers_def seq_def setImage_def setTitle_def
          display_call_def split: option.splits prod.splits completion.splits if_splits)
  qed
qed

text \<open>
  \<^verbatim>\<open>onWillAppear\<close> installs without cancelling. It keeps the property only when the
  instance has no entry in \<^verbatim>\<open>timers\<close> yet.
\<close>

lemma onWillAppear_owned:
  assumes "timers_owned s" and "timers s (action_id ev) = None"
  shows "timers_owned (snd (onWillAppear e ev s))"
proof (cases "truthy (resource (payload_settings ev))")
  case True
  from assms(2) timers_ownedD [OF assms(1)] have "active_timers s (action_id ev) = {}"
    by (fastforce simp add: active_timers_def)
  with refresh_install_owned [OF assms(1)] True show ?thesis
    by (simp add: onWillAppear_def placeholder_call)
next
  case False
  with assms(1) placeholder_frame [of e "action_id ev" s] show ?thesis
    by (auto simp add: onWillAppear_def placeholder_call intro: timers_owned_frame)
qed

lemma dispatch_owned:
  assumes "timers_owned s" and "\<And>ev. c = WillAppear ev \<Longrightarrow> timers s (action_id ev) = None"
  shows "timers_owned (snd (dispatch e c s))"
  using assms
  by (cases c) (simp_all add: onWillAppear_owned onWillDisappear_owned onKeyDown_owned
      onDidReceiveSettings_owned)


lemma onDidReceiveSettings_unconfigured:
  assumes "\<not> truthy (resource (payload_settings ev))"
  shows "(\<exists>cs. display (snd (onDidReceiveSettings e ev s)) =
             display s @ (action_id ev, SetImage UnconfiguredImage) # cs \<and>
             set cs \<subseteq> {(action_id ev, SetTitle '''')}) \<and>
         intervals (snd (onDidReceiveSettings e ev s)) =
           intervals (cancel_registered (action_id ev) s)"
proof -
  define s0 where "s0 = cancel_registered (action_id ev) s"
  have d0: "display s0 = display s"
    by (simp add: s0_def cancel_registered_def clearInterval_def split: option.splits)
  from assms have eq: "onDidReceiveSettings e ev s =
      seq (setImage e (action_id ev) UnconfiguredImage)
        (seq (setTitle e (action_id ev) '''')
           (\<lambda>s'. (Returned, s'\<lparr>timers := (timers s')(action_id ev := None)\<rparr>))) s0"
    by (simp add: onDidReceiveSettings_def placeholder_call s0_def cancel_registered_def)
  show ?thesis
    unfolding eq s0_def [symmetric] using d0
    by (simp add: seq_def setImage_def setTitle_def display_call_def
        split: option.splits prod.splits completion.splits)
qed

lemma onDidReceiveSettings_unconfigured_no_timer:
  assumes "timers_owned s" and "\<not> truthy (resource (payload_settings ev))"
  shows "active_timers (snd (onDidReceiveSettings e ev s)) (action_id ev) = {}"
  using onDidReceiveSettings_unconfigured [OF assms(2), of e s]
    cancel_registered_owned [OF assms(1), of "action_id ev"]
  by (simp add: active_timers_def)

section \<open>The lifecycle calls that begin a cycle\<close>






section \<open>Evaluating the handlers on the sample inputs\<close>

lemma js_not_empty: "js (c # cs) \<noteq> []"
  by (simp add: js_def)

lemma data_renders_ascii: "resource st = Some (js str) \<Longrightarrow> data_renders st"
  by (simp add: data_renders_def ascii_renders)

lemma data_renders_sample: "data_renders \<lparr>resource = Some (js str), refreshInterval = n\<rparr>"
  by (simp add: data_renders_ascii)

lemma to_double_samples:
  "to_double 60000 = Finite 60000" "to_double 300000 = Finite 300000"
  using to_double_int [of 60000] to_double_int [of 300000] by simp_all

lemma to_double_zero: "to_double 0 = Finite 0"
  by (simp add: to_double_def)

lemma delay_of_samples:
  "delay_of \<lparr>resource = r, refreshInterval = Some (Finite 60)\<rparr> = Finite 60000"
  "delay_of \<lparr>resource = r, refreshInterval = None\<rparr> = Finite 300000"
  "delay_of \<lparr>resource = r, refreshInterval = Some (Finite 0)\<rparr> = Finite 0"
  by (simp_all add: delay_of_def DEFAULT_REFRESH_INTERVAL_def to_double_samples to_double_zero)

lemma timer_period_samples:
  "timer_period (Finite 60000) = 60000" "timer_period (Finite 300000) = 300000"
  "timer_period (Finite 0) = 1"
  by (simp_all add: TIMEOUT_MAX_def)

text \<open>
  The message of the sample error does not survive the cut: \<^verbatim>\<open>truncate\<close> keeps the
  high surrogate of the emoji and drops the low one.
\<close>

lemma emoji_message_cut:
  "truncate_text emoji_message 16 = replicate 13 (cu CHR ''a'') @ [0xD83D] @ js ''..''"
  by (simp add: truncate_text_def slice0_def emoji_message_def js_def numeral_eq_Suc)

lemma emoji_message_ill_formed: "\<not> isWellFormed (truncate_text emoji_message 16)"
proof -
  have "surrogate_free (replicate 13 (cu CHR ''a''))"
    by (simp add: surrogate_free_def cu_not_surrogate)
  then have "isWellFormed (truncate_text emoji_message 16) = isWellFormed ([0xD83D] @ js ''..'')"
    unfolding emoji_message_cut by (rule wf_skip_prefix)
  also have "\<dots> = False"
    by (simp add: js_def is_high_surrogate_def cu_not_surrogate)
  finally show ?thesis by simp
qed

text \<open>
  Two values that pin the models of \<^verbatim>\<open>encodeURIComponent\<close> and of the product of two
  doubles: a string with a character of each UTF-8 length, and the product of
  \<open>2 ^ 53 - 1\<close> and 1000, which is not a double and rounds to the even neighbour.
\<close>

lemma encodeURIComponent_sample:
  "encodeURIComponent (js ''<a b>'' @ [0xE9, 0x26A0, 0xD83D, 0xDE00]) =
     Inr (js ''%3Ca%20b%3E%C3%A9%E2%9A%A0%F0%9F%98%80'')"
  by (simp add: encodeURIComponent_def uriUnreserved_def is_high_surrogate_def
      is_low_surrogate_def js_def cu_def percent_encoded_def percent_octet_def utf8_def
      code_point_def)

lemma double_product_sample:
  "js_times (Finite 9007199254740991) (Finite 1000) = Finite 9007199254740990976"
  by code_simp

text \<open>The equations that evaluate the handlers on the sample inputs.\<close>

lemmas eval_defs = onWillAppear_def onKeyDown_def onDidReceiveSettings_def onWillDisappear_def
  refresh_resolved accepts_all_eq ok_env_def has_token_def btn1_def init_def seq_def
  install_timer_eq settled_image_def clearInterval_def Let_def placeholder_call
  js_not_empty data_renders_sample delay_of_samples TIMEOUT_MAX_def

lemma appear_twice_state:
  "run ok_env [WillAppear btn1, WillAppear btn1] init =
     \<lparr>timers = [''btn1'' \<mapsto> 1],
      intervals = [0 \<mapsto> \<lparr>delay_ms = Finite 60000, period_ms = 60000, cb_event = btn1\<rparr>,
                   1 \<mapsto> \<lparr>delay_ms = Finite 60000, period_ms = 60000, cb_event = btn1\<rparr>],
      next_handle = 2,
      display = [(''btn1'', SetImage LoadingImage), (''btn1'', SetTitle ''''),
                 (''btn1'', SetImage (data_image (payload_settings btn1))),
                 (''btn1'', SetTitle ''''),
                 (''btn1'', SetImage LoadingImage), (''btn1'', SetTitle ''''),
                 (''btn1'', SetImage (data_image (payload_settings btn1))),
                 (''btn1'', SetTitle '''')],
      global_reads = 2\<rparr>"
  by (simp add: eval_defs numeral_2_eq_2)

lemma appear_twice_disappear_state:
  "intervals (run ok_env [WillAppear btn1, WillAppear btn1, WillDisappear btn1] init) =
     [0 \<mapsto> \<lparr>delay_ms = Finite 60000, period_ms = 60000, cb_event = btn1\<rparr>] \<and>
   timers (run ok_env [WillAppear btn1, WillAppear btn1, WillDisappear btn1] init) = Map.empty"
  by (simp add: eval_defs numeral_2_eq_2 fun_eq_iff)

text \<open>
  Claim C1. The code at the input that breaks the claim: \<^verbatim>\<open>onWillAppear\<close> delivered
  twice for \<^verbatim>\<open>"btn1"\<close> with \<^verbatim>\<open>{resource: "x", refreshInterval: 60}\<close>, every external
  call succeeding. The second call installs interval 1 without cancelling interval 0,
  so two timers are active for the instance. The map now points at interval 1 only,
  and a later \<^verbatim>\<open>onWillDisappear\<close> cancels that one: interval 0 keeps firing.
\<close>

theorem onWillAppear_twice_leaks_timer:
  "intervals (run ok_env [WillAppear btn1, WillAppear btn1] init) 0 =
     Some \<lparr>delay_ms = Finite 60000, period_ms = 60000, cb_event = btn1\<rparr> \<and>
   intervals (run ok_env [WillAppear btn1, WillAppear btn1] init) 1 =
     Some \<lparr>delay_ms = Finite 60000, period_ms = 60000, cb_event = btn1\<rparr> \<and>
   timers (run ok_env [WillAppear btn1, WillAppear btn1] init) ''btn1'' = Some 1 \<and>
   active_timers (run ok_env [WillAppear btn1, WillAppear btn1] init) ''btn1'' = {0, 1} \<and>
   timers (run ok_env [WillAppear btn1, WillAppear btn1, WillDisappear btn1] init) ''btn1'' =
     None \<and>
   active_timers (run ok_env [WillAppear btn1, WillAppear btn1, WillDisappear btn1] init)
     ''btn1'' = {0}"
proof -
  have "active_timers (run ok_env [WillAppear btn1, WillAppear btn1] init) ''btn1'' = {0, 1}"
    unfolding appear_twice_state
    by (auto simp add: active_timers_def btn1_def split: if_splits)
  moreover have
    "intervals (run ok_env [WillAppear btn1, WillAppear btn1] init) 0 =
       Some \<lparr>delay_ms = Finite 60000, period_ms = 60000, cb_event = btn1\<rparr>"
    "intervals (run ok_env [WillAppear btn1, WillAppear btn1] init) 1 =
       Some \<lparr>delay_ms = Finite 60000, period_ms = 60000, cb_event = btn1\<rparr>"
    "timers (run ok_env [WillAppear btn1, WillAppear btn1] init) ''btn1'' = Some 1"
    unfolding appear_twice_state by simp_all
  moreover have
    "active_timers (run ok_env [WillAppear btn1, WillAppear btn1, WillDisappear btn1] init)
       ''btn1'' = {0}"
    unfolding active_timers_def using appear_twice_disappear_state
    by (auto simp add: btn1_def split: if_splits)
  moreover have
    "timers (run ok_env [WillAppear btn1, WillAppear btn1, WillDisappear btn1] init) ''btn1'' =
       None"
    using appear_twice_disappear_state by simp
  ultimately show ?thesis by simp
qed

text \<open>
  Claim C7. The code at the input that breaks the claim: \<^verbatim>\<open>onWillAppear\<close> for
  \<^verbatim>\<open>"btn1"\<close> with a resource, then \<^verbatim>\<open>onWillAppear\<close> for \<^verbatim>\<open>"btn1"\<close> with settings
  that lack the resource. The second call asks for the placeholder and returns; the
  timer of the first call stays registered and active.
\<close>

theorem onWillAppear_unconfigured_keeps_timer:
  "drop 4 (display (run ok_env [WillAppear btn1, WillAppear btn1_unconfigured] init)) =
     [(''btn1'', SetImage UnconfiguredImage), (''btn1'', SetTitle '''')] \<and>
   timers (run ok_env [WillAppear btn1, WillAppear btn1_unconfigured] init) ''btn1'' = Some 0 \<and>
   intervals (run ok_env [WillAppear btn1, WillAppear btn1_unconfigured] init) 0 =
     Some \<lparr>delay_ms = Finite 60000, period_ms = 60000, cb_event = btn1\<rparr> \<and>
   active_timers (run ok_env [WillAppear btn1, WillAppear btn1_unconfigured] init) ''btn1'' = {0}"
proof -
  have st: "run ok_env [WillAppear btn1, WillAppear btn1_unconfigured] init =
     \<lparr>timers = [''btn1'' \<mapsto> 0],
      intervals = [0 \<mapsto> \<lparr>delay_ms = Finite 60000, period_ms = 60000, cb_event = btn1\<rparr>],
      next_handle = 1,
      display = [(''btn1'', SetImage LoadingImage), (''btn1'', SetTitle ''''),
                 (''btn1'', SetImage (data_image (payload_settings btn1))),
                 (''btn1'', SetTitle ''''),
                 (''btn1'', SetImage UnconfiguredImage), (''btn1'', SetTitle '''')],
      global_reads = 1\<rparr>"
    by (simp add: eval_defs btn1_unconfigured_def setImage_def setTitle_def display_call_def)
  show ?thesis
    unfolding st by (auto simp add: active_timers_def btn1_def split: if_splits)
qed

section \<open>Overlapping refresh cycles\<close>



section \<open>A failing read\<close>


lemma plus_numerals:
  "n + 3 = Suc (Suc (Suc n))" "n + 4 = Suc (Suc (Suc (Suc n)))"
  by simp_all




section \<open>Rejections that leave the handlers\<close>

text \<open>
  Claim C4, as worded, fails on the code. The loading image is requested outside the
  \<^verbatim>\<open>try\<close> block and the placeholder is requested with no \<^verbatim>\<open>try\<close> at all: when the
  host rejects that call, \<^verbatim>\<open>onWillAppear\<close>, \<^verbatim>\<open>onKeyDown\<close> and
  \<^verbatim>\<open>onDidReceiveSettings\<close> reject with the same error. And with a host that accepts
  every call, a read that fails with the sample message makes \<^verbatim>\<open>renderErrorImage\<close>
  throw inside the \<^verbatim>\<open>catch\<close> block: the three handlers reject with the \<^verbatim>\<open>URIError\<close>.
\<close>

theorem display_rejection_escapes:
  "fst (onWillAppear reject_env btn1 init) = Threw (ErrorObject (js ''disconnected'')) \<and>
   fst (onKeyDown reject_env btn1 init) = Threw (ErrorObject (js ''disconnected'')) \<and>
   fst (onDidReceiveSettings reject_env btn1 init) = Threw (ErrorObject (js ''disconnected'')) \<and>
   fst (onWillAppear reject_env btn1_unconfigured init) =
     Threw (ErrorObject (js ''disconnected'')) \<and>
   fst (onWillAppear emoji_env btn1 init) = Threw URIError \<and>
   fst (onKeyDown emoji_env btn1 init) = Threw URIError \<and>
   fst (onDidReceiveSettings emoji_env btn1 init) = Threw URIError"
proof -
  have "fst (onWillAppear reject_env btn1 init) = Threw (ErrorObject (js ''disconnected'')) \<and>
    fst (onKeyDown reject_env btn1 init) = Threw (ErrorObject (js ''disconnected'')) \<and>
    fst (onDidReceiveSettings reject_env btn1 init) = Threw (ErrorObject (js ''disconnected'')) \<and>
    fst (onWillAppear reject_env btn1_unconfigured init) =
      Threw (ErrorObject (js ''disconnected''))"
    by (simp add: onWillAppear_def onKeyDown_def onDidReceiveSettings_def refresh_def
        refresh_begin_eq placeholder_call seq_def setImage_def setTitle_def display_call_def
        reject_env_def first_rejected_def btn1_def btn1_unconfigured_def init_def js_not_empty)
  moreover have "refresh emoji_env btn1 init =
     (Threw URIError,
      init\<lparr>display := [(''btn1'', SetImage LoadingImage), (''btn1'', SetTitle '''')],
           global_reads := 1\<rparr>)"
    using emoji_message_ill_formed
    by (simp add: refresh_resolved emoji_env_def accepts_all_eq emoji_read_fails_def
        settled_image_def btn1_def init_def)
  then have "fst (onWillAppear emoji_env btn1 init) = Threw URIError \<and>
    fst (onKeyDown emoji_env btn1 init) = Threw URIError \<and>
    fst (onDidReceiveSettings emoji_env btn1 init) = Threw URIError"
    by (simp add: onWillAppear_def onKeyDown_def onDidReceiveSettings_def seq_def Let_def
        btn1_def init_def js_not_empty)
  ultimately show ?thesis by simp
qed

text \<open>
  When a refresh cycle returns, read off the environment; and what a failure inside
  the \<^verbatim>\<open>try\<close> block, once caught, leaves on the display.
\<close>

lemma refresh_returns_iff:
  "(fst (refresh e ev s) = Returned) =
     refresh_returns e ev (length (display s)) (global_reads s)"
  by (simp add: refresh_eqs refresh_returns_def try_failure_def accepted_def message_of_URIError
      ascii_renders plus_numerals
      split: option.splits sum.splits prod.splits completion.splits if_splits)

lemma refresh_caught:
  assumes "try_failure e ev (length (display s)) (global_reads s) = Some (err, m)"
    and "refresh_returns e ev (length (display s)) (global_reads s)"
  shows "drop m (display (snd (refresh e ev s))) =
     [(action_id ev, SetImage (ErrorImage (message_of err))), (action_id ev, SetTitle '''')]"
  using assms
  by (auto simp add: refresh_eqs refresh_returns_def try_failure_def accepted_def
      message_of_URIError ascii_renders plus_numerals
      split: option.splits sum.splits prod.splits completion.splits if_splits)

lemma placeholder_returns_iff:
  "(fst (seq (setImage e i UnconfiguredImage) (setTitle e i '''') s) = Returned) =
     (accepted e (length (display s)) \<and> accepted e (length (display s) + 1))"
  by (simp add: seq_def setImage_def setTitle_def display_call_def accepted_def
      split: option.splits)

lemma cancel_registered_log:
  "display (cancel_registered i s) = display s \<and>
   global_reads (cancel_registered i s) = global_reads s"
  by (simp add: cancel_registered_def clearInterval_def split: option.splits)

lemma seq_install_returns: "(fst (seq f (install_timer ev) s) = Returned) = (fst (f s) = Returned)"
  by (cases "f s") (simp add: seq_def install_timer_eq split: completion.splits)

text \<open>
  Claim C4, amended. \<^verbatim>\<open>onWillDisappear\<close> always returns normally. A refresh cycle,
  and with it \<^verbatim>\<open>onKeyDown\<close>, \<^verbatim>\<open>onWillAppear\<close> and \<^verbatim>\<open>onDidReceiveSettings\<close> for
  settings that hold a resource, returns normally exactly when the host accepts the
  two calls of the loading state and, if the \<^verbatim>\<open>try\<close> block fails, the \<^verbatim>\<open>catch\<close>
  block does not fail in turn. Every failure inside the \<^verbatim>\<open>try\<close> block (a rejected
  read, a rejected display call, a data image that cannot be rendered) is then a
  display transition: the last two calls of the cycle ask for the error image with the
  message of the error caught and for the empty title. For settings without a
  resource \<^verbatim>\<open>onKeyDown\<close> returns at once, and \<^verbatim>\<open>onWillAppear\<close> and
  \<^verbatim>\<open>onDidReceiveSettings\<close> return normally exactly when the host accepts the two
  calls of the placeholder.
\<close>

theorem handlers_return_exactly_when:
  "fst (onWillDisappear ev s) = Returned \<and>
   (fst (refresh e ev s) = Returned) =
     refresh_returns e ev (length (display s)) (global_reads s) \<and>
   (try_failure e ev (length (display s)) (global_reads s) = Some (err, m) \<longrightarrow>
    refresh_returns e ev (length (display s)) (global_reads s) \<longrightarrow>
      drop m (display (snd (refresh e ev s))) =
        [(action_id ev, SetImage (ErrorImage (message_of err))), (action_id ev, SetTitle '''')]) \<and>
   (truthy (resource (payload_settings ev)) \<longrightarrow>
      (fst (onKeyDown e ev s) = Returned) =
        refresh_returns e ev (length (display s)) (global_reads s) \<and>
      (fst (onWillAppear e ev s) = Returned) =
        refresh_returns e ev (length (display s)) (global_reads s) \<and>
      (fst (onDidReceiveSettings e ev s) = Returned) =
        refresh_returns e ev (length (display s)) (global_reads s)) \<and>
   (\<not> truthy (resource (payload_settings ev)) \<longrightarrow>
      fst (onKeyDown e ev s) = Returned \<and>
      (fst (onWillAppear e ev s) = Returned) =
        (accepted e (length (display s)) \<and> accepted e (length (display s) + 1)) \<and>
      (fst (onDidReceiveSettings e ev s) = Returned) =
        (accepted e (length (display s)) \<and> accepted e (length (display s) + 1)))"
proof -
  let ?s0 = "cancel_registered (action_id ev) s"
  have d: "fst (onWillDisappear ev s) = Returned"
    by (simp add: onWillDisappear_def Let_def)
  have k: "truthy (resource (payload_settings ev)) \<Longrightarrow>
      (fst (onKeyDown e ev s) = Returned) =
        refresh_returns e ev (length (display s)) (global_reads s)"
    by (simp add: onKeyDown_def refresh_returns_iff)
  have a: "truthy (resource (payload_settings ev)) \<Longrightarrow>
      (fst (onWillAppear e ev s) = Returned) =
        refresh_returns e ev (length (display s)) (global_reads s)"
    by (simp add: onWillAppear_def seq_install_returns refresh_returns_iff)
  have r: "truthy (resource (payload_settings ev)) \<Longrightarrow>
      (fst (onDidReceiveSettings e ev s) = Returned) =
        refresh_returns e ev (length (display s)) (global_reads s)"
  proof -
    assume t: "truthy (resource (payload_settings ev))"
    then have "onDidReceiveSettings e ev s = seq (refresh e ev) (install_timer ev) ?s0"
      by (simp add: onDidReceiveSettings_def cancel_registered_def)
    then show ?thesis
      using cancel_registered_log [of "action_id ev" s]
      by (simp add: seq_install_returns refresh_returns_iff)
  qed
  have k': "\<not> truthy (resource (payload_settings ev)) \<Longrightarrow> fst (onKeyDown e ev s) = Returned"
    by (simp add: onKeyDown_def)
  have a': "\<not> truthy (resource (payload_settings ev)) \<Longrightarrow>
      (fst (onWillAppear e ev s) = Returned) =
        (accepted e (length (display s)) \<and> accepted e (length (display s) + 1))"
    by (simp add: onWillAppear_def placeholder_call placeholder_returns_iff)
  have r': "\<not> truthy (resource (payload_settings ev)) \<Longrightarrow>
      (fst (onDidReceiveSettings e ev s) = Returned) =
        (accepted e (length (display s)) \<and> accepted e (length (display s) + 1))"
  proof -
    assume t: "\<not> truthy (resource (payload_settings ev))"
    then have "onDidReceiveSettings e ev s =
      seq (setImage e (action_id ev) UnconfiguredImage)
        (seq (setTitle e (action_id ev) '''')
           (\<lambda>s'. (Returned, s'\<lparr>timers := (timers s')(action_id ev := None)\<rparr>))) ?s0"
      by (simp add: onDidReceiveSettings_def placeholder_call cancel_registered_def)
    then show ?thesis
      using cancel_registered_log [of "action_id ev" s]
      by (simp add: seq_def setImage_def setTitle_def display_call_def accepted_def
          split: option.splits)
  qed
  from d k a r k' a' r' refresh_caught [of e ev s err m] show ?thesis
    by (simp add: refresh_returns_iff)
qed

theorem handlers_return_exactly_when_witness:
  "truthy (resource (payload_settings btn1)) \<and>
   try_failure caught_env btn1 (length (display init)) (global_reads init) =
     Some (ErrorObject (js ''disconnected''), 3) \<and>
   refresh_returns caught_env btn1 (length (display init)) (global_reads init) \<and>
   fst (onWillAppear caught_env btn1 init) = Returned \<and>
   fst (onKeyDown caught_env btn1 init) = Returned \<and>
   fst (onDidReceiveSettings caught_env btn1 init) = Returned \<and>
   drop 3 (display (snd (refresh caught_env btn1 init))) =
     [(''btn1'', SetImage (ErrorImage (js ''disconnected''))), (''btn1'', SetTitle '''')] \<and>
   \<not> truthy (resource (payload_settings btn1_unconfigured)) \<and>
   accepted caught_env (length (display init)) \<and>
   accepted caught_env (length (display init) + 1) \<and>
   fst (onWillAppear caught_env btn1_unconfigured init) = Returned"
proof -
  have t: "truthy (resource (payload_settings btn1))"
    "\<not> truthy (resource (payload_settings btn1_unconfigured))"
    by (simp_all add: btn1_def btn1_unconfigured_def js_not_empty)
  have f: "try_failure caught_env btn1 (length (display init)) (global_reads init) =
     Some (ErrorObject (js ''disconnected''), 3)"
    by (simp add: try_failure_def caught_env_def has_token_def third_rejected_def init_def
        btn1_def js_not_empty data_renders_sample)
  have r: "refresh_returns caught_env btn1 (length (display init)) (global_reads init)"
    unfolding refresh_returns_def f
    by (simp add: accepted_def caught_env_def third_rejected_def init_def ascii_renders)
  have a: "accepted caught_env (length (display init))"
    "accepted caught_env (length (display init) + 1)"
    by (simp_all add: accepted_def caught_env_def third_rejected_def init_def)
  have d: "action_id btn1 = ''btn1''"
    by (simp add: btn1_def)
  from handlers_return_exactly_when
      [of btn1 init caught_env "ErrorObject (js ''disconnected'')" 3]
    handlers_return_exactly_when [of btn1_unconfigured init caught_env]
    t f r a
  show ?thesis
    unfolding d by simp
qed

section \<open>\<^verbatim>\<open>onWillDisappear\<close>\<close>

lemma onWillDisappear_returns: "fst (onWillDisappear ev s) = Returned"
  by (simp add: onWillDisappear_def Let_def)

lemma onWillDisappear_twice:
  "onWillDisappear ev (snd (onWillDisappear ev s)) = onWillDisappear ev s"
  by (simp add: onWillDisappear_def Let_def clearInterval_def split: option.splits)

lemma onWillDisappear_no_entry:
  "timers s (action_id ev) = None \<Longrightarrow> onWillDisappear ev s = (Returned, s)"
  by (simp add: onWillDisappear_def Let_def fun_upd_idem)

text \<open>
  Claim C5. \<^verbatim>\<open>onWillDisappear\<close> is idempotent. It never rejects; a second call in a
  row returns the same completion and leaves exactly the state the first call left
  (the action's map, the timer table and the display log alike); and for an instance
  with no entry in \<^verbatim>\<open>timers\<close> it changes nothing at all.
\<close>

theorem onWillDisappear_idempotent:
  "fst (onWillDisappear ev s) = Returned \<and>
   onWillDisappear ev (snd (onWillDisappear ev s)) = onWillDisappear ev s \<and>
   (timers s (action_id ev) = None \<longrightarrow> onWillDisappear ev s = (Returned, s))"
  by (simp add: onWillDisappear_returns onWillDisappear_twice onWillDisappear_no_entry)

theorem onWillDisappear_idempotent_witness:
  "timers init (action_id btn1) = None \<and> onWillDisappear btn1 init = (Returned, init)"
  using onWillDisappear_idempotent [of btn1 init] by (simp add: init_def)

section \<open>\<^verbatim>\<open>onDidReceiveSettings\<close>\<close>

lemma onDidReceiveSettings_configured:
  assumes "truthy (resource (payload_settings ev))"
    and "fst (onDidReceiveSettings e ev s) = Returned"
  shows "cycles_begun (snd (onDidReceiveSettings e ev s)) (action_id ev) =
           Suc (cycles_begun s (action_id ev)) \<and>
         timers (snd (onDidReceiveSettings e ev s)) = (timers s)(action_id ev \<mapsto> next_handle s) \<and>
         intervals (snd (onDidReceiveSettings e ev s)) =
           (case timers s (action_id ev) of
              None \<Rightarrow> intervals s
            | Some existingTimer \<Rightarrow> (intervals s)(existingTimer := None))
           (next_handle s \<mapsto>
              \<lparr>delay_ms = delay_of (payload_settings ev),
               period_ms = timer_period (delay_of (payload_settings ev)),
               cb_event = ev\<rparr>)"
proof -
  define s0 where "s0 = cancel_registered (action_id ev) s"
  have s0: "display s0 = display s" "timers s0 = timers s" "next_handle s0 = next_handle s"
    "intervals s0 = (case timers s (action_id ev) of
              None \<Rightarrow> intervals s
            | Some existingTimer \<Rightarrow> (intervals s)(existingTimer := None))"
    by (simp_all add: s0_def cancel_registered_def clearInterval_def split: option.splits)
  from assms have eq: "onDidReceiveSettings e ev s = seq (refresh e ev) (install_timer ev) s0"
    by (simp add: onDidReceiveSettings_def s0_def cancel_registered_def)
  with assms have r: "fst (seq (refresh e ev) (install_timer ev) s0) = Returned"
    by simp
  have "cycles_begun (snd (onDidReceiveSettings e ev s)) (action_id ev) =
          cycles_begun (snd (refresh e ev s0)) (action_id ev)"
    unfolding eq refresh_then_install [OF r] by (simp add: cycles_begun_def)
  also have "\<dots> = Suc (cycles_begun s (action_id ev))"
    using refresh_cycles [of e ev s0 "action_id ev"] cycles_begun_cong [of s0 s "action_id ev"]
    by (simp add: s0)
  finally show ?thesis
    unfolding eq refresh_then_install [OF r] by (simp add: s0)
qed

lemma onDidReceiveSettings_unconfigured_entry:
  assumes "\<not> truthy (resource (payload_settings ev))"
    and "fst (onDidReceiveSettings e ev s) = Returned"
  shows "timers (snd (onDidReceiveSettings e ev s)) (action_id ev) = None"
proof -
  define s0 where "s0 = cancel_registered (action_id ev) s"
  from assms(1) have eq: "onDidReceiveSettings e ev s =
      seq (setImage e (action_id ev) UnconfiguredImage)
        (seq (setTitle e (action_id ev) '''')
           (\<lambda>s'. (Returned, s'\<lparr>timers := (timers s')(action_id ev := None)\<rparr>))) s0"
    by (simp add: onDidReceiveSettings_def placeholder_call s0_def cancel_registered_def)
  from assms(2) show ?thesis
    unfolding eq by (simp add: seq_seq_Returned)
qed

text \<open>
  Claim C9, as worded, fails on the code. \<^verbatim>\<open>"btn1"\<close> appears with
  \<^verbatim>\<open>{resource: "x", refreshInterval: 60}\<close> and then receives the partial payload
  \<^verbatim>\<open>{resource: "y"}\<close>. The merge would keep the interval of 60 seconds; the action
  retains the payload alone and the new timer runs at the default of 300 seconds.
\<close>

theorem partial_payload_not_merged:
  "retained_settings (run ok_env [WillAppear btn1] init) ''btn1'' = Some (payload_settings btn1) \<and>
   retained_settings (run ok_env [WillAppear btn1, DidReceiveSettings btn1_partial] init) ''btn1'' =
     Some \<lparr>resource = Some (js ''y''), refreshInterval = None\<rparr> \<and>
   spec_merge (payload_settings btn1) (payload_settings btn1_partial) =
     \<lparr>resource = Some (js ''y''), refreshInterval = Some (Finite 60)\<rparr> \<and>
   intervals (run ok_env [WillAppear btn1, DidReceiveSettings btn1_partial] init) 1 =
     Some \<lparr>delay_ms = Finite 300000, period_ms = 300000, cb_event = btn1_partial\<rparr>"
  by (simp add: eval_defs btn1_partial_def retained_settings_def spec_merge_def)

text \<open>
  Claim C9, amended. The action caches no settings and merges nothing. After an
  \<^verbatim>\<open>onDidReceiveSettings\<close> that returns normally, the settings it retains for the
  instance are exactly the payload of the event when the payload holds a resource
  (a key absent from the payload is unset, whatever it was before), and none at all
  when it does not.
\<close>

theorem onDidReceiveSettings_retains_payload:
  assumes "fst (onDidReceiveSettings e ev s) = Returned"
  shows "retained_settings (snd (onDidReceiveSettings e ev s)) (action_id ev) =
           (if truthy (resource (payload_settings ev)) then Some (payload_settings ev) else None)"
proof (cases "truthy (resource (payload_settings ev))")
  case True
  from onDidReceiveSettings_configured [OF True assms] True show ?thesis
    by (simp add: retained_settings_def)
next
  case False
  from onDidReceiveSettings_unconfigured_entry [OF False assms] False show ?thesis
    by (simp add: retained_settings_def)
qed

theorem onDidReceiveSettings_retains_payload_witness:
  "fst (onDidReceiveSettings ok_env btn1_partial (run ok_env [WillAppear btn1] init)) = Returned \<and>
   retained_settings (run ok_env [WillAppear btn1] init) ''btn1'' =
     Some \<lparr>resource = Some (js ''x''), refreshInterval = Some (Finite 60)\<rparr> \<and>
   retained_settings
     (snd (onDidReceiveSettings ok_env btn1_partial (run ok_env [WillAppear btn1] init))) ''btn1'' =
     Some \<lparr>resource = Some (js ''y''), refreshInterval = None\<rparr>"
proof -
  have b: "fst (onDidReceiveSettings ok_env btn1_partial (run ok_env [WillAppear btn1] init)) =
      Returned"
    by (simp add: eval_defs btn1_partial_def)
  have c: "retained_settings (run ok_env [WillAppear btn1] init) ''btn1'' =
     Some \<lparr>resource = Some (js ''x''), refreshInterval = Some (Finite 60)\<rparr>"
    by (simp add: eval_defs retained_settings_def)
  from onDidReceiveSettings_retains_payload [OF b] b c show ?thesis
    by (simp add: btn1_partial_def js_not_empty)
qed

section \<open>\<^verbatim>\<open>onWillAppear\<close>\<close>












end
